theory Spec2Isabelle
  imports Complex_Main "HOL-Library.Log_Nat"
begin

section \<open>Data model of the GPU satellite tracker component\<close>

text \<open>
  A JavaScript number as the component sees it in a backend result: a finite value, an
  infinity, or \<open>NaN\<close> (also what reading past the end of a typed array and multiplying
  gives). The only arithmetic the propagation loop does on backend samples is the
  multiplication by \<open>1000.0\<close>; a 32-bit float times 1000 fits a double exactly, so finite
  values are rationals and the product is exact.
\<close>

datatype number = Num rat | NaN | PosInfinity | NegInfinity

fun times1000 :: "number \<Rightarrow> number" where
  "times1000 (Num v) = Num (v * 1000)"
| "times1000 NaN = NaN"
| "times1000 PosInfinity = PosInfinity"
| "times1000 NegInfinity = NegInfinity"

text \<open>\<open>interface PositionBuffer { x; y; z }\<close>; the fields are \<open>px\<close>, \<open>py\<close>, \<open>pz\<close> here.\<close>

record PositionBuffer =
  px :: number
  py :: number
  pz :: number

text \<open>\<open>{ x: 0, y: 0, z: 0 }\<close>, the value every buffer entry and every point starts with.\<close>

definition origin :: PositionBuffer where
  "origin = \<lparr>px = Num 0, py = Num 0, pz = Num 0\<rparr>"

text \<open>\<open>interface SatMetadata\<close>; \<open>'t\<close> is the geometry library's \<open>JulianDate\<close>.\<close>

record 't SatMetadata =
  satName :: string
  noradID :: string
  TLEEpochJulian :: 't
  idx :: nat

text \<open>
  The functions of the geometry library (\<open>CesiumJs\<close>) that the component calls. The library
  is not part of the repository, so they are parameters: \<open>'t\<close> is \<open>JulianDate\<close>, \<open>'r\<close> a
  rotation (\<open>Matrix3\<close>), \<open>'m\<close> a transform (\<open>Matrix4\<close>). \<open>None\<close> is \<open>undefined\<close>.
  \<open>JulianDate.fromDate\<close> takes a \<open>Date\<close>, here its time value in milliseconds since 1970, or
  \<open>None\<close> for an invalid \<open>Date\<close>.
\<close>

record ('t, 'r, 'm) CesiumType =
  JulianDate_fromDate :: "int option \<Rightarrow> 't"
  JulianDate_compare :: "'t \<Rightarrow> 't \<Rightarrow> rat"
  JulianDate_secondsDifference :: "'t \<Rightarrow> 't \<Rightarrow> rat"
  computeTemeToPseudoFixedMatrix :: "'t \<Rightarrow> 'r option"
  computeIcrfToFixedMatrix :: "'t \<Rightarrow> 'r option"
  fromRotationTranslation :: "'r \<Rightarrow> 'm"

text \<open>
  Calls that reach the propagation backend, in the order they are made. \<open>'g\<close> is the
  backend's packed constants (\<open>WasmGpuConsts\<close>).
\<close>

datatype 'g backend_call =
    register_const_set "'g list"
  | propagate_registered_f32 nat "rat list"
  | unregister_const_set "nat option"

text \<open>
  The component's refs (\<open>fooRef.current\<close> is the field \<open>foo\<close>), the three clock fields of the
  viewer it reads and writes, and what it has asked of its environment:
  \<^item> \<open>rafPending\<close>: \<open>requestAnimationFrame(propagateLoop)\<close> callbacks not yet run;
  \<^item> \<open>timersPending\<close>: \<open>setTimeout(tryUnregister, 10)\<close> callbacks not yet run;
  \<^item> \<open>outstanding\<close>: backend propagate promises not yet settled;
  \<^item> \<open>backendLog\<close>: the backend calls made so far; \<open>console\<close>: the \<open>console.error\<close> lines;
  \<^item> \<open>transformComputes\<close>: how many times \<open>computeTemeToPseudoFixedMatrix\<close> has been called.
  \<open>pointsCollection\<close> is \<open>None\<close> while the ref is null and \<open>Some mm\<close> afterwards, \<open>mm\<close> being
  the collection's \<open>modelMatrix\<close> (\<open>None\<close>: never assigned). \<open>pointsCollectionPrimitives\<close> holds
  the \<open>position\<close> of each point primitive.
\<close>

record ('t, 'm, 'g) refs =
  isLoaded :: bool
  pointsMetadata :: "'t SatMetadata list option"
  pointsCollectionPrimitives :: "PositionBuffer list option"
  pointsCollection :: "'m option option"
  lastJDate :: "'t option"
  modelMatrix :: "'m option"
  preAllocatedCartesian :: "PositionBuffer list"
  gpuPropagator :: bool
  registeredConstSetId :: "nat option"
  currentPositions :: "PositionBuffer list"
  targetPositions :: "PositionBuffer list"
  isComponentAlive :: bool
  inflight :: int
  clock_currentTime :: 't
  clock_startTime :: 't
  clock_stopTime :: 't
  rafPending :: nat
  timersPending :: nat
  outstanding :: nat
  backendLog :: "'g backend_call list"
  console :: "string list"
  transformComputes :: nat

section \<open>Epoch decoding\<close>

subsection \<open>JavaScript numbers and strings\<close>

text \<open>
  \<open>tleEpochToJulian\<close> computes in double precision. \<open>fl\<close> rounds a rational to the nearest
  double, ties to even: with \<open>2\<^sup>e \<le> \<bar>x\<bar> < 2\<^sup>e\<^sup>+\<^sup>1\<close> the significand \<open>\<bar>x\<bar> / 2\<^sup>e\<^sup>-\<^sup>5\<^sup>2\<close> is
  rounded to an integer. Every JavaScript operation below is the exact operation followed
  by \<open>fl\<close>. The exponent range of doubles is not modelled (no overflow to \<open>Infinity\<close>, no
  subnormals); the values of an epoch are far inside it.
\<close>

definition ilog2 :: "rat \<Rightarrow> int" where
  "ilog2 x =
     (let e0 = bitlen (fst (quotient_of x)) - bitlen (snd (quotient_of x))
      in if 2 powi e0 \<le> x then e0 else e0 - 1)"

definition round_half_even :: "rat \<Rightarrow> int" where
  "round_half_even q =
     (let n = \<lfloor>q\<rfloor>; r = q - of_int n
      in if r < 1 / 2 then n
         else if 1 / 2 < r then n + 1
         else if even n then n else n + 1)"

definition fl :: "rat \<Rightarrow> rat" where
  "fl x =
     (if x = 0 then 0
      else (let e = ilog2 \<bar>x\<bar>;
                m = round_half_even (\<bar>x\<bar> * 2 powi (52 - e))
            in sgn x * of_int m * 2 powi (e - 52)))"

text \<open>
  \<open>parseInt(s, 10)\<close> and \<open>parseFloat(s)\<close>: leading white space, an optional sign, then the
  longest prefix that is a number (for \<open>parseFloat\<close>: digits, an optional fraction, an
  optional exponent); \<open>None\<close> is \<open>NaN\<close>, and also stands for the literal \<open>Infinity\<close>, which
  like \<open>NaN\<close> ends in an invalid \<open>Date\<close>. \<open>parseInt\<close> is exact on the two characters it is
  given here; \<open>parseFloat\<close> rounds the decimal value to a double.
  Characters are single bytes: the white space beyond ASCII that JavaScript also skips
  (U+00A0 and others) is not modelled.
\<close>

definition is_digit :: "char \<Rightarrow> bool" where
  "is_digit c \<longleftrightarrow> 48 \<le> (of_char c :: int) \<and> (of_char c :: int) \<le> 57"

definition digit_val :: "char \<Rightarrow> int" where
  "digit_val c = of_char c - 48"

definition is_ws :: "char \<Rightarrow> bool" where
  "is_ws c \<longleftrightarrow> (of_char c :: int) \<in> {9, 10, 11, 12, 13, 32}"

definition digits_val :: "string \<Rightarrow> int" where
  "digits_val ds = foldl (\<lambda>a c. 10 * a + digit_val c) 0 ds"

fun strip_sign :: "string \<Rightarrow> int \<times> string" where
  "strip_sign (c # cs) =
     (if c = CHR ''-'' then (- 1, cs) else if c = CHR ''+'' then (1, cs) else (1, c # cs))"
| "strip_sign [] = (1, [])"

definition parseInt :: "string \<Rightarrow> int option" where
  "parseInt s =
     (case strip_sign (dropWhile is_ws s) of
        (sign, r) \<Rightarrow>
          (let ds = takeWhile is_digit r
           in if ds = [] then None else Some (sign * digits_val ds)))"

fun exponent_part :: "string \<Rightarrow> int" where
  "exponent_part (c # cs) =
     (if c = CHR ''e'' \<or> c = CHR ''E'' then
        (case strip_sign cs of
           (sign, r) \<Rightarrow> sign * digits_val (takeWhile is_digit r))
      else 0)"
| "exponent_part [] = 0"

definition parseFloat :: "string \<Rightarrow> rat option" where
  "parseFloat s =
     (case strip_sign (dropWhile is_ws s) of
        (sign, r) \<Rightarrow>
          (let ip = takeWhile is_digit r;
               r1 = dropWhile is_digit r;
               hasdot = (r1 \<noteq> [] \<and> hd r1 = CHR ''.'');
               fp = (if hasdot then takeWhile is_digit (tl r1) else []);
               r2 = (if hasdot then dropWhile is_digit (tl r1) else r1)
           in if ip = [] \<and> fp = [] then None
              else Some (fl (of_int (sign * digits_val (ip @ fp)) / 10 ^ length fp
                               * 10 powi exponent_part r2))))"

text \<open>
  \<open>Date.UTC(year, monthIndex, day)\<close> in milliseconds since 1970-01-01T00:00:00Z, by the
  days-from-civil computation on the proleptic Gregorian calendar (years 0 to 99 mean 1900
  to 1999, as in JavaScript). \<open>new Date(t)\<close> keeps the integral part of \<open>t\<close> (truncation
  towards zero) and is invalid (\<open>None\<close>) beyond \<open>\<plusminus>8.64\<cdot>10\<^sup>1\<^sup>5\<close>.
\<close>

definition days_from_civil :: "int \<Rightarrow> int \<Rightarrow> int \<Rightarrow> int" where
  "days_from_civil y m d =
     (let y1 = (if m \<le> 2 then y - 1 else y);
          era = y1 div 400;
          yoe = y1 - era * 400;
          doy = (153 * (if 2 < m then m - 3 else m + 9) + 2) div 5 + d - 1;
          doe = yoe * 365 + yoe div 4 - yoe div 100 + doy
      in era * 146097 + doe - 719468)"

definition Date_UTC :: "int \<Rightarrow> int \<Rightarrow> int \<Rightarrow> int" where
  "Date_UTC year monthIndex day =
     (let yr = (if 0 \<le> year \<and> year \<le> 99 then 1900 + year else year)
      in days_from_civil (yr + monthIndex div 12) (monthIndex mod 12 + 1) 1 * 86400000
         + (day - 1) * 86400000)"

definition new_Date :: "rat \<Rightarrow> int option" where
  "new_Date t =
     (if 8640000000000000 < \<bar>t\<bar> then None
      else Some (if 0 \<le> t then \<lfloor>t\<rfloor> else \<lceil>t\<rceil>))"

subsection \<open>\<open>tleEpochToJulian\<close>\<close>

text \<open>
  \<open>pivot_year\<close> is the line \<open>year = year < 57 ? 2000 + year : 1900 + year\<close>, \<open>epochTimeMs\<close> the
  sum \<open>startOfYear.getTime() + (day - 1) * 24 * 60 * 60 * 1000\<close> in the order JavaScript
  evaluates it, \<open>tleEpochToMs\<close> the time value of \<open>new Date(epochTimeMs)\<close>.
\<close>

definition pivot_year :: "int \<Rightarrow> int" where
  "pivot_year year = (if year < 57 then 2000 + year else 1900 + year)"

definition epochTimeMs :: "int \<Rightarrow> rat \<Rightarrow> rat" where
  "epochTimeMs year day =
     fl (of_int (Date_UTC year 0 1) + fl (fl (fl (fl (fl (day - 1) * 24) * 60) * 60) * 1000))"

definition tleEpochToMs :: "string \<Rightarrow> int option" where
  "tleEpochToMs epochStr =
     (case parseInt (take 2 epochStr) of
        None \<Rightarrow> None
      | Some year0 \<Rightarrow>
          (case parseFloat (drop 2 epochStr) of
             None \<Rightarrow> None
           | Some day \<Rightarrow> new_Date (epochTimeMs (pivot_year year0) day)))"


section \<open>Registration\<close>











section \<open>The propagation loop\<close>

text \<open>
  \<open>propagateLoop\<close> is an async function: \<open>propagateLoop\<close> below is its run up to the
  \<open>await\<close> (everything before it is synchronous), \<open>propagateLoop_settled\<close> its continuation
  when the backend promise settles. With the metadata ref still null, \<open>metadata.length\<close>
  throws inside the async function: its promise rejects and the state is as it was.

  The time offsets are \<open>secondsDifference(now, epoch) / 60.0\<close>, one per metadata entry,
  each quotient rounded to a double.
\<close>

definition times_of ::
  "('t, 'r, 'm) CesiumType \<Rightarrow> 't \<Rightarrow> 't SatMetadata list \<Rightarrow> rat list" where
  "times_of C now metadata =
     map (\<lambda>m. fl (JulianDate_secondsDifference C now (TLEEpochJulian m) / 60)) metadata"

definition propagateLoop ::
  "('t, 'r, 'm) CesiumType \<Rightarrow> ('t, 'm, 'g) refs \<Rightarrow> ('t, 'm, 'g) refs" where
  "propagateLoop C s =
     (if \<not> isComponentAlive s then s
      else if \<not> gpuPropagator s \<or> registeredConstSetId s = None then s
      else case pointsMetadata s of
        None \<Rightarrow> s
      | Some metadata \<Rightarrow>
          if length metadata = 0 then s
          else if inflight s \<noteq> 0 then s\<lparr>rafPending := rafPending s + 1\<rparr>
          else s\<lparr>inflight := inflight s + 1,
                 outstanding := outstanding s + 1,
                 backendLog := backendLog s @
                   [propagate_registered_f32 (the (registeredConstSetId s))
                      (times_of C (clock_currentTime s) metadata)]\<rparr>)"

text \<open>
  \<open>flat[o]\<close> on a \<open>Float32Array\<close>: the element, or \<open>undefined\<close> past the end, which the
  multiplication turns into \<open>NaN\<close>.
\<close>

definition flat_at :: "number list \<Rightarrow> nat \<Rightarrow> number" where
  "flat_at flat o' = (if o' < length flat then flat ! o' else NaN)"

text \<open>
  The copy loop \<open>for (let i = 0; i < N; i++)\<close> with \<open>N = flat.length / 6\<close> (a fraction when
  the length is no multiple of 6). \<open>tgt[i].x = ...\<close> on a missing entry throws a
  \<open>TypeError\<close>: the result is \<open>Inl\<close> of the buffer as written so far (the writes are in
  place and stay). \<open>Inr\<close> is the loop running to its end.
\<close>

function copy_into_target ::
  "number list \<Rightarrow> nat \<Rightarrow> PositionBuffer list \<Rightarrow> PositionBuffer list + PositionBuffer list" where
  "copy_into_target flat i tgt =
     (if (of_nat i :: rat) < of_nat (length flat) / 6 then
        (if i < length tgt then
           copy_into_target flat (Suc i)
             (tgt[i := (tgt ! i)\<lparr>px := times1000 (flat_at flat (i * 6)),
                                   py := times1000 (flat_at flat (i * 6 + 1)),
                                   pz := times1000 (flat_at flat (i * 6 + 2))\<rparr>])
         else Inl tgt)
      else Inr tgt)"
  by pat_completeness auto
termination
  by (relation "measure (\<lambda>(flat, i, tgt). length flat - 6 * i)") (auto simp: field_simps)

declare copy_into_target.simps [simp del]

datatype outcome = Resolved "number list" | Rejected

text \<open>The \<open>try\<close>/\<open>catch\<close> after the \<open>await\<close>, then the \<open>finally\<close> block.\<close>

definition write_target :: "outcome \<Rightarrow> ('t, 'm, 'g) refs \<Rightarrow> ('t, 'm, 'g) refs" where
  "write_target r s =
     (case r of
        Rejected \<Rightarrow> s\<lparr>console := console s @ [''GPU propagate loop error'']\<rparr>
      | Resolved flat \<Rightarrow>
          (case copy_into_target flat 0 (targetPositions s) of
             Inr tgt \<Rightarrow> s\<lparr>targetPositions := tgt\<rparr>
           | Inl tgt \<Rightarrow> s\<lparr>targetPositions := tgt,
                           console := console s @ [''GPU propagate loop error'']\<rparr>))"

definition propagateLoop_settled ::
  "outcome \<Rightarrow> ('t, 'm, 'g) refs \<Rightarrow> ('t, 'm, 'g) refs" where
  "propagateLoop_settled r s =
     (let s1 = write_target r s
      in s1\<lparr>inflight := inflight s1 - 1,
             rafPending := rafPending s1 + 1,
             outstanding := outstanding s1 - 1\<rparr>)"

section \<open>Teardown\<close>

text \<open>
  \<open>tryUnregister\<close>; \<open>ok\<close> says whether \<open>unregister_const_set\<close> returns (\<open>True\<close>) or throws.
  The argument it passes is whatever the handle ref holds at that moment.
\<close>

definition tryUnregister :: "bool \<Rightarrow> ('t, 'm, 'g) refs \<Rightarrow> ('t, 'm, 'g) refs" where
  "tryUnregister ok s =
     (if inflight s = 0 then
        (let s1 = s\<lparr>backendLog := backendLog s @ [unregister_const_set (registeredConstSetId s)]\<rparr>;
             s2 = (if ok then s1 else s1\<lparr>console := console s1 @ [''unregister_const_set error'']\<rparr>)
         in s2\<lparr>registeredConstSetId := None\<rparr>)
      else s\<lparr>timersPending := timersPending s + 1\<rparr>)"

text \<open>The cleanup function the effect returns.\<close>

definition cleanup :: "bool \<Rightarrow> ('t, 'm, 'g) refs \<Rightarrow> ('t, 'm, 'g) refs" where
  "cleanup ok s =
     (let s1 = s\<lparr>isComponentAlive := False\<rparr>
      in if gpuPropagator s1 \<and> registeredConstSetId s1 \<noteq> None then tryUnregister ok s1 else s1)"

section \<open>The render step\<close>

text \<open>
  The loop of \<open>animate\<close> that moves the points: \<open>cur[i] \<leftarrow> tgt[i]\<close>, then
  \<open>pre[i] \<leftarrow> cur[i]\<close>, then \<open>pts[i].position = pre[i]\<close>. A missing
  \<open>cur[i]\<close>, \<open>tgt[i]\<close> or \<open>pre[i]\<close> throws and ends the loop with the writes made so far.
  The result is \<open>(pts, cur, pre)\<close>.
\<close>

function move_points ::
  "nat \<Rightarrow> PositionBuffer list \<Rightarrow> PositionBuffer list \<Rightarrow> PositionBuffer list \<Rightarrow> PositionBuffer list
     \<Rightarrow> PositionBuffer list \<times> PositionBuffer list \<times> PositionBuffer list" where
  "move_points i tgt pts cur pre =
     (if i < length pts then
        (if i < length cur \<and> i < length tgt then
           (let cur1 = cur[i := (cur ! i)\<lparr>px := px (tgt ! i), py := py (tgt ! i), pz := pz (tgt ! i)\<rparr>]
            in if i < length pre then
                 (let pre1 = pre[i := (pre ! i)\<lparr>px := px (cur1 ! i), py := py (cur1 ! i),
                                                   pz := pz (cur1 ! i)\<rparr>]
                  in move_points (Suc i) tgt (pts[i := pre1 ! i]) cur1 pre1)
               else (pts, cur1, pre))
         else (pts, cur, pre))
      else (pts, cur, pre))"
  by pat_completeness auto
termination
  by (relation "measure (\<lambda>(i, tgt, pts, cur, pre). length pts - i)") auto

declare move_points.simps [simp del]

text \<open>\<open>teme ?? icrf\<close>\<close>

definition nullish :: "'a option \<Rightarrow> 'a option \<Rightarrow> 'a option" where
  "nullish a b = (case a of Some v \<Rightarrow> Some v | None \<Rightarrow> b)"

text \<open>
  \<open>animate\<close>, the pre-render listener, in its three parts: the wraparound test, the
  rate-limited transform (\<open>transform_step\<close>, with \<open>update_transform\<close> the body of its
  \<open>if\<close>) and the loop over the points (\<open>move_step\<close>). \<open>timeLimit\<close> is the constant
  \<open>boot\<close> computes once, \<open>JulianDate.compare(stopTime, startTime)\<close>, and the closure captures.
\<close>

definition update_transform ::
  "('t, 'r, 'm) CesiumType \<Rightarrow> 't \<Rightarrow> ('t, 'm, 'g) refs \<Rightarrow> ('t, 'm, 'g) refs" where
  "update_transform C now s =
     (let s1 = s\<lparr>lastJDate := Some now, transformComputes := transformComputes s + 1\<rparr>;
          teme = computeTemeToPseudoFixedMatrix C now;
          icrf = computeIcrfToFixedMatrix C now
      in case nullish teme icrf of
           None \<Rightarrow> s1
         | Some r \<Rightarrow>
             s1\<lparr>modelMatrix := Some (fromRotationTranslation C r),
                pointsCollection := Some (Some (fromRotationTranslation C r))\<rparr>)"

definition transform_step ::
  "('t, 'r, 'm) CesiumType \<Rightarrow> 't \<Rightarrow> ('t, 'm, 'g) refs \<Rightarrow> ('t, 'm, 'g) refs" where
  "transform_step C now s =
     (let s1 = (if lastJDate s = None then s\<lparr>lastJDate := Some now\<rparr> else s);
          diffSeconds = JulianDate_secondsDifference C now (the (lastJDate s1))
      in if \<bar>diffSeconds\<bar> > 1 then update_transform C now s1 else s1)"

definition move_step :: "PositionBuffer list \<Rightarrow> ('t, 'm, 'g) refs \<Rightarrow> ('t, 'm, 'g) refs" where
  "move_step pts s =
     (case move_points 0 (targetPositions s) pts (currentPositions s) (preAllocatedCartesian s) of
        (pts1, cur1, pre1) \<Rightarrow>
          s\<lparr>pointsCollectionPrimitives := Some pts1,
            currentPositions := cur1,
            preAllocatedCartesian := pre1\<rparr>)"

definition animate ::
  "('t, 'r, 'm) CesiumType \<Rightarrow> rat \<Rightarrow> ('t, 'm, 'g) refs \<Rightarrow> ('t, 'm, 'g) refs" where
  "animate C timeLimit s =
     (if pointsMetadata s = None \<or> pointsCollectionPrimitives s = None \<or> pointsCollection s = None
      then s
      else
        (let now = clock_currentTime s in
         if \<bar>JulianDate_compare C now (clock_stopTime s)\<bar> > timeLimit then
           s\<lparr>clock_currentTime := clock_startTime s\<rparr>
         else move_step (the (pointsCollectionPrimitives s)) (transform_step C now s)))"

section \<open>The component as a transition system\<close>

text \<open>
  What can happen to a mounted component, one callback at a time (JavaScript runs each to
  completion):
  \<^item> \<open>Tick\<close>: a pending animation-frame callback runs \<open>propagateLoop\<close>;
  \<^item> \<open>Settled r\<close>: an outstanding backend promise settles with \<open>r\<close>;
  \<^item> \<open>Cleanup ok\<close>: React runs the effect's cleanup;
  \<^item> \<open>Timer ok\<close>: a pending \<open>setTimeout(tryUnregister, 10)\<close> fires;
  \<^item> \<open>Frame\<close>: the renderer's pre-render event runs \<open>animate\<close>;
  \<^item> \<open>ClockSet t\<close>: the viewer's clock moves to \<open>t\<close>.
  \<open>step\<close> is \<open>None\<close> when the event cannot happen in that state (no callback pending, no
  promise outstanding).
\<close>

datatype 't event = Tick | Settled outcome | Cleanup bool | Timer bool | Frame | ClockSet 't

fun step ::
  "('t, 'r, 'm) CesiumType \<Rightarrow> rat \<Rightarrow> 't event \<Rightarrow> ('t, 'm, 'g) refs \<Rightarrow> ('t, 'm, 'g) refs option" where
  "step C timeLimit Tick s =
     (if rafPending s > 0 then Some (propagateLoop C (s\<lparr>rafPending := rafPending s - 1\<rparr>))
      else None)"
| "step C timeLimit (Settled r) s =
     (if outstanding s > 0 then Some (propagateLoop_settled r s) else None)"
| "step C timeLimit (Cleanup ok) s = Some (cleanup ok s)"
| "step C timeLimit (Timer ok) s =
     (if timersPending s > 0 then Some (tryUnregister ok (s\<lparr>timersPending := timersPending s - 1\<rparr>))
      else None)"
| "step C timeLimit Frame s = Some (animate C timeLimit s)"
| "step C timeLimit (ClockSet t) s = Some (s\<lparr>clock_currentTime := t\<rparr>)"

fun run ::
  "('t, 'r, 'm) CesiumType \<Rightarrow> rat \<Rightarrow> 't event list \<Rightarrow> ('t, 'm, 'g) refs \<Rightarrow> ('t, 'm, 'g) refs option" where
  "run C timeLimit [] s = Some s"
| "run C timeLimit (e # es) s =
     (case step C timeLimit e s of None \<Rightarrow> None | Some s' \<Rightarrow> run C timeLimit es s')"

text \<open>
  The invariant of the loop: the counter is the number of backend propagate promises that
  have not settled yet, and there is at most one.
\<close>

definition one_call :: "('t, 'm, 'g) refs \<Rightarrow> bool" where
  "one_call s \<longleftrightarrow> inflight s = int (outstanding s) \<and> outstanding s \<le> 1"

text \<open>The backend propagate calls among the calls made so far.\<close>

fun is_propagate :: "'g backend_call \<Rightarrow> bool" where
  "is_propagate (propagate_registered_f32 h ts) = True"
| "is_propagate _ = False"

definition propagate_calls :: "'g backend_call list \<Rightarrow> 'g backend_call list" where
  "propagate_calls calls = filter is_propagate calls"

text \<open>Nothing queued and nothing outstanding: no animation-frame callback, no backend promise.\<close>

definition quiet :: "('t, 'm, 'g) refs \<Rightarrow> bool" where
  "quiet s \<longleftrightarrow> rafPending s = 0 \<and> outstanding s = 0"

text \<open>
  The release calls (\<open>unregister_const_set\<close>) made so far, and the state of a component whose
  cleanup has run once with a handle to release: not alive, at most one backend call
  outstanding, and either one release made or one poll pending, the release only with the
  counter at 0.
\<close>

fun is_unregister :: "'g backend_call \<Rightarrow> bool" where
  "is_unregister (unregister_const_set h) = True"
| "is_unregister _ = False"

definition releases :: "('t, 'm, 'g) refs \<Rightarrow> nat" where
  "releases s = length (filter is_unregister (backendLog s))"

fun is_cleanup :: "'t event \<Rightarrow> bool" where
  "is_cleanup (Cleanup ok) = True"
| "is_cleanup _ = False"

definition shutting_down :: "('t, 'm, 'g) refs \<Rightarrow> bool" where
  "shutting_down s \<longleftrightarrow>
     \<not> isComponentAlive s \<and> one_call s \<and> releases s + timersPending s = 1
     \<and> (releases s = 1 \<longrightarrow> inflight s = 0)"

text \<open>
  The \<open>i\<close>-th position sample of a result with six components per satellite
  (\<open>x y z vx vy vz\<close>), converted from kilometres to metres.
\<close>

definition sample_m :: "number list \<Rightarrow> nat \<Rightarrow> PositionBuffer" where
  "sample_m flat i = \<lparr>px = times1000 (flat ! (6 * i)),
                       py = times1000 (flat ! (6 * i + 1)),
                       pz = times1000 (flat ! (6 * i + 2))\<rparr>"

text \<open>
  \<open>timeLimit\<close>, computed once in \<open>boot\<close>: the library's comparison of the clock's stop and start
  bounds.
\<close>

definition timeLimit :: "('t, 'r, 'm) CesiumType \<Rightarrow> ('t, 'm, 'g) refs \<Rightarrow> rat" where
  "timeLimit C s = JulianDate_compare C (clock_stopTime s) (clock_startTime s)"

text \<open>
  The geometry library's \<open>JulianDate\<close> as the library itself defines it (it is not part of
  the repository): a whole day number and the seconds into that day, days starting at noon.
  \<open>JulianDate.compare\<close> is the library's ordering function: the difference of the day
  numbers when they differ, and only otherwise the difference of the seconds of day.
  \<open>JulianDate.secondsDifference\<close> is the difference in seconds. \<open>cesium_time C\<close> is a
  library \<open>C\<close> with these two functions.
\<close>

record JulianDate =
  dayNumber :: int
  secondsOfDay :: rat

definition cesium_compare :: "JulianDate \<Rightarrow> JulianDate \<Rightarrow> rat" where
  "cesium_compare left right =
     (let julianDayNumberDifference = dayNumber left - dayNumber right
      in if julianDayNumberDifference \<noteq> 0 then of_int julianDayNumberDifference
         else secondsOfDay left - secondsOfDay right)"

definition cesium_secondsDifference :: "JulianDate \<Rightarrow> JulianDate \<Rightarrow> rat" where
  "cesium_secondsDifference left right =
     of_int ((dayNumber left - dayNumber right) * 86400) + (secondsOfDay left - secondsOfDay right)"

definition cesium_time :: "(JulianDate, 'r, 'm) CesiumType \<Rightarrow> (JulianDate, 'r, 'm) CesiumType" where
  "cesium_time C = C\<lparr>JulianDate_compare := cesium_compare,
                      JulianDate_secondsDifference := cesium_secondsDifference\<rparr>"

text \<open>
  The simulated seconds between the clock and the instant \<open>lastJDate\<close> holds, as \<open>animate\<close>
  computes them; on the first frame \<open>lastJDate\<close> is still null and is set to the clock first.
\<close>

definition since_last :: "('t, 'r, 'm) CesiumType \<Rightarrow> ('t, 'm, 'g) refs \<Rightarrow> rat" where
  "since_last C s =
     JulianDate_secondsDifference C (clock_currentTime s)
       (case lastJDate s of None \<Rightarrow> clock_currentTime s | Some l \<Rightarrow> l)"

section \<open>A small mounted component\<close>

text \<open>
  A concrete library and a concrete component state (two satellites, registered under the
  handle 7, two loops kicked) on which the theorems below are run. Instants are seconds.
\<close>

definition demoC :: "(rat, nat, nat) CesiumType" where
  "demoC = \<lparr>JulianDate_fromDate = (\<lambda>d. case d of None \<Rightarrow> 0 | Some ms \<Rightarrow> of_int ms / 1000),
            JulianDate_compare = (\<lambda>a b. a - b),
            JulianDate_secondsDifference = (\<lambda>a b. a - b),
            computeTemeToPseudoFixedMatrix = (\<lambda>t. Some 1),
            computeIcrfToFixedMatrix = (\<lambda>t. None),
            fromRotationTranslation = (\<lambda>r. r + 1)\<rparr>"

definition demo :: "(rat, nat, nat) refs" where
  "demo = \<lparr>isLoaded = True,
           pointsMetadata = Some [\<lparr>satName = ''A'', noradID = ''00005'', TLEEpochJulian = 0, idx = 0\<rparr>,
                                  \<lparr>satName = ''B'', noradID = ''00011'', TLEEpochJulian = 60, idx = 1\<rparr>],
           pointsCollectionPrimitives = Some [origin, origin],
           pointsCollection = Some None,
           lastJDate = None,
           modelMatrix = None,
           preAllocatedCartesian = [origin, origin],
           gpuPropagator = True,
           registeredConstSetId = Some 7,
           currentPositions = [origin, origin],
           targetPositions = [origin, origin],
           isComponentAlive = True,
           inflight = 0,
           clock_currentTime = 120,
           clock_startTime = 120,
           clock_stopTime = 420,
           rafPending = 2,
           timersPending = 0,
           outstanding = 0,
           backendLog = [register_const_set [10, 11]],
           console = [],
           transformComputes = 0\<rparr>"

definition demo_busy :: "(rat, nat, nat) refs" where
  "demo_busy = demo\<lparr>rafPending := 1, inflight := 1, outstanding := 1,
                 backendLog := [register_const_set [10, 11], propagate_registered_f32 7 [2, 1]]\<rparr>"

definition demo_unregistered :: "(rat, nat, nat) refs" where
  "demo_unregistered = demo\<lparr>registeredConstSetId := None, rafPending := 1\<rparr>"

text \<open>
  A tear-down that arrives twice while a backend call is in flight: a tick starts a call,
  the effect's cleanup runs twice (the props change, then the component unmounts), the call
  fails, and the two polls fire.
\<close>

definition twice_torn_down :: "rat event list" where
  "twice_torn_down = [Tick, Cleanup True, Cleanup True, Settled Rejected, Timer True, Timer True]"

text \<open>
  Two backend results for the two satellites of \<open>demo\<close>: \<open>flat3\<close> with three components per
  satellite (positions only), \<open>flat6\<close> with six (positions and velocities).
\<close>

definition flat3 :: "number list" where
  "flat3 = [Num 1, Num 2, Num 3, Num 4, Num 5, Num 6]"

definition flat6 :: "number list" where
  "flat6 = [Num 1, Num 2, Num 3, Num (1/2), Num 0, Num 0, Num 4, Num 5, Num 6, Num 0, Num (-1), NaN]"

text \<open>
  The clock of \<open>demo\<close> runs from 120 to 420. \<open>demo_later\<close> is 3 seconds after the last
  recompute of the transform, \<open>demo_rewound\<close> 50 seconds before it.
\<close>

definition demo_rewound :: "(rat, nat, nat) refs" where
  "demo_rewound = demo\<lparr>clock_currentTime := 150, lastJDate := Some 200\<rparr>"

definition demo_later :: "(rat, nat, nat) refs" where
  "demo_later = demo\<lparr>clock_currentTime := 203, lastJDate := Some 200\<rparr>"




text \<open>
  The playback window the component configures, 2024-04-14T00:00:00Z to
  2024-04-17T00:00:00Z, and two instants, as \<open>JulianDate\<close> values (atomic time, 37 seconds
  ahead of UTC): 2024-04-16T12:00:00Z, twelve hours before the stop bound, and
  2024-04-20T11:00:00Z, three days and eleven hours past it. \<open>playback now\<close> is a mounted
  component with one satellite whose clock stands at \<open>now\<close>.
\<close>

definition april_14 :: JulianDate where
  "april_14 = \<lparr>dayNumber = 2460414, secondsOfDay = 43237\<rparr>"

definition april_17 :: JulianDate where
  "april_17 = \<lparr>dayNumber = 2460417, secondsOfDay = 43237\<rparr>"

definition april_16_noon :: JulianDate where
  "april_16_noon = \<lparr>dayNumber = 2460417, secondsOfDay = 37\<rparr>"

definition april_20_eleven :: JulianDate where
  "april_20_eleven = \<lparr>dayNumber = 2460420, secondsOfDay = 82837\<rparr>"

definition playback :: "JulianDate \<Rightarrow> (JulianDate, nat, nat) refs" where
  "playback now =
     \<lparr>isLoaded = True,
      pointsMetadata = Some [\<lparr>satName = ''A'', noradID = ''00005'', TLEEpochJulian = april_14, idx = 0\<rparr>],
      pointsCollectionPrimitives = Some [origin],
      pointsCollection = Some None,
      lastJDate = None,
      modelMatrix = None,
      preAllocatedCartesian = [origin],
      gpuPropagator = True,
      registeredConstSetId = Some 7,
      currentPositions = [origin],
      targetPositions = [origin\<lparr>px := Num 7\<rparr>],
      isComponentAlive = True,
      inflight = 0,
      clock_currentTime = now,
      clock_startTime = april_14,
      clock_stopTime = april_17,
      rafPending = 1,
      timersPending = 0,
      outstanding = 0,
      backendLog = [register_const_set [10]],
      console = [],
      transformComputes = 0\<rparr>"

section \<open>Properties\<close>

subsection \<open>What each callback leaves alone\<close>

lemma update_transform_frame:
  "inflight (update_transform C now s) = inflight s"
  "outstanding (update_transform C now s) = outstanding s"
  "backendLog (update_transform C now s) = backendLog s"
  "isComponentAlive (update_transform C now s) = isComponentAlive s"
  "registeredConstSetId (update_transform C now s) = registeredConstSetId s"
  "gpuPropagator (update_transform C now s) = gpuPropagator s"
  "timersPending (update_transform C now s) = timersPending s"
  "rafPending (update_transform C now s) = rafPending s"
  "targetPositions (update_transform C now s) = targetPositions s"
  "console (update_transform C now s) = console s"
  "pointsMetadata (update_transform C now s) = pointsMetadata s"
  by (simp_all add: update_transform_def Let_def split: option.splits)

lemma transform_step_frame:
  "inflight (transform_step C now s) = inflight s"
  "outstanding (transform_step C now s) = outstanding s"
  "backendLog (transform_step C now s) = backendLog s"
  "isComponentAlive (transform_step C now s) = isComponentAlive s"
  "registeredConstSetId (transform_step C now s) = registeredConstSetId s"
  "gpuPropagator (transform_step C now s) = gpuPropagator s"
  "timersPending (transform_step C now s) = timersPending s"
  "rafPending (transform_step C now s) = rafPending s"
  "targetPositions (transform_step C now s) = targetPositions s"
  "console (transform_step C now s) = console s"
  "pointsMetadata (transform_step C now s) = pointsMetadata s"
  by (simp_all add: transform_step_def update_transform_frame Let_def)

lemma move_step_frame:
  "inflight (move_step pts s) = inflight s"
  "outstanding (move_step pts s) = outstanding s"
  "backendLog (move_step pts s) = backendLog s"
  "isComponentAlive (move_step pts s) = isComponentAlive s"
  "registeredConstSetId (move_step pts s) = registeredConstSetId s"
  "gpuPropagator (move_step pts s) = gpuPropagator s"
  "timersPending (move_step pts s) = timersPending s"
  "rafPending (move_step pts s) = rafPending s"
  "targetPositions (move_step pts s) = targetPositions s"
  "console (move_step pts s) = console s"
  "pointsMetadata (move_step pts s) = pointsMetadata s"
  by (simp_all add: move_step_def split: prod.splits)

lemma animate_frame:
  "inflight (animate C L s) = inflight s"
  "outstanding (animate C L s) = outstanding s"
  "backendLog (animate C L s) = backendLog s"
  "isComponentAlive (animate C L s) = isComponentAlive s"
  "registeredConstSetId (animate C L s) = registeredConstSetId s"
  "gpuPropagator (animate C L s) = gpuPropagator s"
  "timersPending (animate C L s) = timersPending s"
  "rafPending (animate C L s) = rafPending s"
  "targetPositions (animate C L s) = targetPositions s"
  "console (animate C L s) = console s"
  "pointsMetadata (animate C L s) = pointsMetadata s"
  by (simp_all add: animate_def transform_step_frame move_step_frame Let_def)

lemma tryUnregister_frame:
  "inflight (tryUnregister ok s) = inflight s"
  "outstanding (tryUnregister ok s) = outstanding s"
  "isComponentAlive (tryUnregister ok s) = isComponentAlive s"
  "gpuPropagator (tryUnregister ok s) = gpuPropagator s"
  "rafPending (tryUnregister ok s) = rafPending s"
  "targetPositions (tryUnregister ok s) = targetPositions s"
  "pointsMetadata (tryUnregister ok s) = pointsMetadata s"
  by (simp_all add: tryUnregister_def Let_def)

lemma cleanup_frame:
  "inflight (cleanup ok s) = inflight s"
  "outstanding (cleanup ok s) = outstanding s"
  "isComponentAlive (cleanup ok s) = False"
  "gpuPropagator (cleanup ok s) = gpuPropagator s"
  "rafPending (cleanup ok s) = rafPending s"
  "targetPositions (cleanup ok s) = targetPositions s"
  "pointsMetadata (cleanup ok s) = pointsMetadata s"
  by (simp_all add: cleanup_def tryUnregister_frame Let_def)

lemma write_target_frame:
  "inflight (write_target r s) = inflight s"
  "outstanding (write_target r s) = outstanding s"
  "rafPending (write_target r s) = rafPending s"
  "backendLog (write_target r s) = backendLog s"
  "isComponentAlive (write_target r s) = isComponentAlive s"
  "registeredConstSetId (write_target r s) = registeredConstSetId s"
  "gpuPropagator (write_target r s) = gpuPropagator s"
  "timersPending (write_target r s) = timersPending s"
  "pointsMetadata (write_target r s) = pointsMetadata s"
  by (simp_all add: write_target_def split: outcome.splits sum.splits)

lemma settled_frame:
  "inflight (propagateLoop_settled r s) = inflight s - 1"
  "outstanding (propagateLoop_settled r s) = outstanding s - 1"
  "rafPending (propagateLoop_settled r s) = rafPending s + 1"
  "backendLog (propagateLoop_settled r s) = backendLog s"
  "isComponentAlive (propagateLoop_settled r s) = isComponentAlive s"
  "registeredConstSetId (propagateLoop_settled r s) = registeredConstSetId s"
  "gpuPropagator (propagateLoop_settled r s) = gpuPropagator s"
  "timersPending (propagateLoop_settled r s) = timersPending s"
  "pointsMetadata (propagateLoop_settled r s) = pointsMetadata s"
  by (simp_all add: propagateLoop_settled_def write_target_frame Let_def)

subsection \<open>The three ways a tick ends\<close>

lemma propagateLoop_stop:
  "\<not> isComponentAlive s \<or> \<not> gpuPropagator s \<or> registeredConstSetId s = None
     \<or> pointsMetadata s = None \<or> pointsMetadata s = Some [] \<Longrightarrow> propagateLoop C s = s"
  unfolding propagateLoop_def by (cases "pointsMetadata s") auto

lemma propagateLoop_defer:
  "isComponentAlive s \<Longrightarrow> gpuPropagator s \<Longrightarrow> registeredConstSetId s = Some h
     \<Longrightarrow> pointsMetadata s = Some md \<Longrightarrow> md \<noteq> [] \<Longrightarrow> inflight s \<noteq> 0
     \<Longrightarrow> propagateLoop C s = s\<lparr>rafPending := rafPending s + 1\<rparr>"
  unfolding propagateLoop_def by simp

lemma propagateLoop_start:
  "isComponentAlive s \<Longrightarrow> gpuPropagator s \<Longrightarrow> registeredConstSetId s = Some h
     \<Longrightarrow> pointsMetadata s = Some md \<Longrightarrow> md \<noteq> [] \<Longrightarrow> inflight s = 0
     \<Longrightarrow> propagateLoop C s =
           s\<lparr>inflight := 1, outstanding := outstanding s + 1,
              backendLog := backendLog s @
                [propagate_registered_f32 h (times_of C (clock_currentTime s) md)]\<rparr>"
  unfolding propagateLoop_def by simp

lemma propagateLoop_cases:
  obtains (stopped) "propagateLoop C s = s"
  | (deferred) "inflight s \<noteq> 0" "propagateLoop C s = s\<lparr>rafPending := rafPending s + 1\<rparr>"
  | (started) h md where "inflight s = 0" "isComponentAlive s" "gpuPropagator s"
      "registeredConstSetId s = Some h" "pointsMetadata s = Some md" "md \<noteq> []"
      "propagateLoop C s =
           s\<lparr>inflight := 1, outstanding := outstanding s + 1,
              backendLog := backendLog s @
                [propagate_registered_f32 h (times_of C (clock_currentTime s) md)]\<rparr>"
proof (cases "\<not> isComponentAlive s \<or> \<not> gpuPropagator s \<or> registeredConstSetId s = None
     \<or> pointsMetadata s = None \<or> pointsMetadata s = Some []")
  case True
  then show ?thesis using propagateLoop_stop stopped by blast
next
  case False
  then obtain h md where f: "isComponentAlive s" "gpuPropagator s" "registeredConstSetId s = Some h"
    "pointsMetadata s = Some md" "md \<noteq> []" by auto
  show ?thesis
  proof (cases "inflight s = 0")
    case True
    with f propagateLoop_start[OF f True] started show ?thesis by blast
  next
    case False
    with propagateLoop_defer[OF f False] deferred show ?thesis by blast
  qed
qed

subsection \<open>At most one backend call at a time\<close>

lemma propagateLoop_one_call: "one_call s \<Longrightarrow> one_call (propagateLoop C s)"
  by (rule propagateLoop_cases[of C s]) (simp_all add: one_call_def)

lemma step_one_call:
  "one_call s \<Longrightarrow> step C L e s = Some s' \<Longrightarrow> one_call s'"
proof (cases e)
  case Tick
  assume a: "one_call s" "step C L e s = Some s'"
  then have "one_call (s\<lparr>rafPending := rafPending s - 1\<rparr>)" by (simp add: one_call_def)
  from propagateLoop_one_call[OF this] a Tick show ?thesis by (auto split: if_splits)
next
  case (Settled r)
  assume "one_call s" "step C L e s = Some s'"
  with Settled show ?thesis
    by (auto simp: one_call_def settled_frame split: if_splits)
next
  case (Cleanup ok)
  assume "one_call s" "step C L e s = Some s'"
  with Cleanup show ?thesis by (auto simp: one_call_def cleanup_frame)
next
  case (Timer ok)
  assume "one_call s" "step C L e s = Some s'"
  with Timer show ?thesis by (auto simp: one_call_def tryUnregister_frame split: if_splits)
next
  case Frame
  assume "one_call s" "step C L e s = Some s'"
  with Frame show ?thesis by (auto simp: one_call_def animate_frame)
next
  case (ClockSet t)
  assume "one_call s" "step C L e s = Some s'"
  with ClockSet show ?thesis by (auto simp: one_call_def)
qed

lemma run_one_call:
  "one_call s \<Longrightarrow> run C L es s = Some s' \<Longrightarrow> one_call s'"
proof (induction es arbitrary: s)
  case Nil
  then show ?case by simp
next
  case (Cons e es)
  then show ?case by (auto split: option.splits dest: step_one_call)
qed

lemma fl_small: "fl 2 = 2" "fl 1 = 1"
  by code_simp+

lemma demo_run: "run demoC 300 [Tick, Tick] demo = Some demo_busy"
  by (simp add: demo_def demo_busy_def demoC_def propagateLoop_def times_of_def fl_small)

text \<open>
  Claim C1. Start from any state with the counter at 0 and no backend call outstanding (what
  \<open>boot\<close> leaves), with any number of loops kicked, and let any sequence of callbacks run.
  Then the in-flight counter is 0 or 1 and equals the number of outstanding backend calls, so
  no two calls overlap. A tick that finds the counter non-zero starts no backend call, and
  when the component is alive and registered it only re-queues itself. A tick that does
  start a call finds the counter at 0 and leaves it at 1 with that one call appended, and the
  continuation after the call, whether it resolved or failed, takes the counter down by one.
\<close>

theorem inflight_zero_or_one:
  assumes "inflight s0 = 0" and "outstanding s0 = 0" and "run C L es s0 = Some s"
  shows "(inflight s = 0 \<or> inflight s = 1)
       \<and> int (outstanding s) = inflight s
       \<and> (inflight s \<noteq> 0 \<longrightarrow>
            backendLog (propagateLoop C s) = backendLog s
          \<and> outstanding (propagateLoop C s) = outstanding s
          \<and> inflight (propagateLoop C s) = inflight s)
       \<and> (inflight s \<noteq> 0 \<and> isComponentAlive s \<and> gpuPropagator s \<and> registeredConstSetId s \<noteq> None
            \<and> pointsMetadata s \<noteq> None \<and> pointsMetadata s \<noteq> Some [] \<longrightarrow>
            propagateLoop C s = s\<lparr>rafPending := rafPending s + 1\<rparr>)
       \<and> (backendLog (propagateLoop C s) \<noteq> backendLog s \<longrightarrow>
            inflight s = 0 \<and> inflight (propagateLoop C s) = 1
          \<and> outstanding (propagateLoop C s) = 1
          \<and> (\<exists>h ts. backendLog (propagateLoop C s) = backendLog s @ [propagate_registered_f32 h ts]))
       \<and> (\<forall>r. inflight (propagateLoop_settled r s) = inflight s - 1)"
proof -
  have "one_call s0" using assms(1,2) by (simp add: one_call_def)
  from run_one_call[OF this assms(3)] have oc: "inflight s = int (outstanding s)" "outstanding s \<le> 1"
    by (simp_all add: one_call_def)
  have a: "inflight s = 0 \<or> inflight s = 1" using oc by linarith
  have b: "inflight s \<noteq> 0 \<longrightarrow>
            backendLog (propagateLoop C s) = backendLog s
          \<and> outstanding (propagateLoop C s) = outstanding s
          \<and> inflight (propagateLoop C s) = inflight s"
    by (rule propagateLoop_cases[of C s]) simp_all
  have c: "inflight s \<noteq> 0 \<and> isComponentAlive s \<and> gpuPropagator s \<and> registeredConstSetId s \<noteq> None
            \<and> pointsMetadata s \<noteq> None \<and> pointsMetadata s \<noteq> Some [] \<longrightarrow>
            propagateLoop C s = s\<lparr>rafPending := rafPending s + 1\<rparr>"
    using propagateLoop_defer[of s _ _ C] by blast
  have d: "backendLog (propagateLoop C s) \<noteq> backendLog s \<longrightarrow>
            inflight s = 0 \<and> inflight (propagateLoop C s) = 1
          \<and> outstanding (propagateLoop C s) = 1
          \<and> (\<exists>h ts. backendLog (propagateLoop C s) = backendLog s @ [propagate_registered_f32 h ts])"
    by (insert oc, rule propagateLoop_cases[of C s]) simp_all
  have e: "\<forall>r. inflight (propagateLoop_settled r s) = inflight s - 1"
    by (simp add: settled_frame)
  show ?thesis by (intro conjI a b c d e oc(1)[symmetric])
qed

theorem inflight_zero_or_one_witness:
  "inflight demo = 0 \<and> outstanding demo = 0 \<and> run demoC 300 [Tick, Tick] demo = Some demo_busy
   \<and> inflight demo_busy = 1 \<and> int (outstanding demo_busy) = 1
   \<and> backendLog (propagateLoop demoC demo_busy) = backendLog demo_busy
   \<and> propagateLoop demoC demo_busy = demo_busy\<lparr>rafPending := rafPending demo_busy + 1\<rparr>
   \<and> inflight (propagateLoop_settled Rejected demo_busy) = 0"
proof -
  have h: "inflight demo = 0" "outstanding demo = 0" by (simp_all add: demo_def)
  have b: "inflight demo_busy \<noteq> 0" "isComponentAlive demo_busy" "gpuPropagator demo_busy"
    "registeredConstSetId demo_busy \<noteq> None" "pointsMetadata demo_busy \<noteq> None"
    "pointsMetadata demo_busy \<noteq> Some []" "inflight demo_busy = 1"
    by (simp_all add: demo_busy_def demo_def)
  from inflight_zero_or_one[OF h demo_run] b h demo_run show ?thesis by simp
qed

subsection \<open>A loop that stopped stays stopped\<close>

lemma tryUnregister_propagate_calls:
  "propagate_calls (backendLog (tryUnregister ok s)) = propagate_calls (backendLog s)"
  by (simp add: tryUnregister_def propagate_calls_def Let_def)

lemma cleanup_propagate_calls:
  "propagate_calls (backendLog (cleanup ok s)) = propagate_calls (backendLog s)"
  by (simp add: cleanup_def tryUnregister_propagate_calls Let_def)

lemma step_quiet:
  assumes "quiet s" and "step C L e s = Some s'"
  shows "quiet s' \<and> propagate_calls (backendLog s') = propagate_calls (backendLog s)"
proof (cases e)
  case Tick
  with assms show ?thesis by (simp add: quiet_def)
next
  case (Settled r)
  with assms show ?thesis by (simp add: quiet_def)
next
  case (Cleanup ok)
  with assms show ?thesis by (auto simp: quiet_def cleanup_frame cleanup_propagate_calls)
next
  case (Timer ok)
  with assms show ?thesis
    by (auto simp: quiet_def tryUnregister_frame tryUnregister_propagate_calls split: if_splits)
next
  case Frame
  with assms show ?thesis by (auto simp: quiet_def animate_frame)
next
  case (ClockSet t)
  with assms show ?thesis by (auto simp: quiet_def)
qed

lemma run_quiet:
  "quiet s \<Longrightarrow> run C L es s = Some s' \<Longrightarrow>
     quiet s' \<and> propagate_calls (backendLog s') = propagate_calls (backendLog s)"
proof (induction es arbitrary: s)
  case Nil
  then show ?case by simp
next
  case (Cons e es)
  from Cons.prems obtain s1 where s1: "step C L e s = Some s1" "run C L es s1 = Some s'"
    by (auto split: option.splits)
  from step_quiet[OF Cons.prems(1) s1(1)] Cons.IH[OF _ s1(2)] show ?case by simp
qed

text \<open>
  Claim C10. A tick that finds the propagator missing, the handle null or the metadata empty
  returns with the state untouched: no backend call, nothing queued. If it was the only
  queued tick and no call is outstanding, the queue is then empty, no tick can run, and
  whatever callbacks run afterwards no tick is ever queued and no propagate call is ever
  made. (The tick that finds a call in flight re-queues itself: see
  \<open>propagateLoop_defer\<close>.)
\<close>

theorem tick_without_set_stops:
  assumes "\<not> gpuPropagator s \<or> registeredConstSetId s = None \<or> pointsMetadata s = Some []"
  shows "propagateLoop C s = s
       \<and> (rafPending s = 1 \<and> outstanding s = 0 \<longrightarrow>
            (\<exists>s1. step C L Tick s = Some s1 \<and> s1 = s\<lparr>rafPending := 0\<rparr>
               \<and> step C L Tick s1 = None
               \<and> (\<forall>es s'. run C L es s1 = Some s' \<longrightarrow>
                     rafPending s' = 0
                   \<and> propagate_calls (backendLog s') = propagate_calls (backendLog s))))"
proof -
  have a: "propagateLoop C s = s" using assms by (rule_tac propagateLoop_stop) blast
  have b: "propagateLoop C (s\<lparr>rafPending := 0\<rparr>) = s\<lparr>rafPending := 0\<rparr>"
    using assms by (rule_tac propagateLoop_stop) auto
  have c: "rafPending s = 1 \<and> outstanding s = 0 \<longrightarrow>
            (\<exists>s1. step C L Tick s = Some s1 \<and> s1 = s\<lparr>rafPending := 0\<rparr>
               \<and> step C L Tick s1 = None
               \<and> (\<forall>es s'. run C L es s1 = Some s' \<longrightarrow>
                     rafPending s' = 0
                   \<and> propagate_calls (backendLog s') = propagate_calls (backendLog s)))"
  proof
    assume h: "rafPending s = 1 \<and> outstanding s = 0"
    let ?s1 = "s\<lparr>rafPending := 0\<rparr>"
    have q: "quiet ?s1" using h by (simp add: quiet_def)
    have st: "step C L Tick s = Some ?s1" using h b by simp
    have r: "\<forall>es s'. run C L es ?s1 = Some s' \<longrightarrow>
                     rafPending s' = 0
                   \<and> propagate_calls (backendLog s') = propagate_calls (backendLog s)"
      using run_quiet[OF q] by (auto simp: quiet_def)
    from st r show "\<exists>s1. step C L Tick s = Some s1 \<and> s1 = s\<lparr>rafPending := 0\<rparr>
               \<and> step C L Tick s1 = None
               \<and> (\<forall>es s'. run C L es s1 = Some s' \<longrightarrow>
                     rafPending s' = 0
                   \<and> propagate_calls (backendLog s') = propagate_calls (backendLog s))"
      by simp
  qed
  from a c show ?thesis by (intro conjI)
qed

theorem tick_without_set_stops_witness:
  "registeredConstSetId demo_unregistered = None
   \<and> propagateLoop demoC demo_unregistered = demo_unregistered
   \<and> rafPending demo_unregistered = 1 \<and> outstanding demo_unregistered = 0
   \<and> step demoC 300 Tick demo_unregistered = Some (demo_unregistered\<lparr>rafPending := 0\<rparr>)
   \<and> step demoC 300 Tick (demo_unregistered\<lparr>rafPending := 0\<rparr>) = None"
proof -
  have h: "registeredConstSetId demo_unregistered = None" "rafPending demo_unregistered = 1"
    "outstanding demo_unregistered = 0"
    by (simp_all add: demo_unregistered_def demo_def)
  from h(1) have "\<not> gpuPropagator demo_unregistered \<or> registeredConstSetId demo_unregistered = None
      \<or> pointsMetadata demo_unregistered = Some []" by simp
  from tick_without_set_stops[OF this, of demoC 300] h show ?thesis by auto
qed

subsection \<open>A failed backend call\<close>

text \<open>
  Claim C4. When the backend promise rejects, the continuation of the tick appends one line
  to the console, takes the in-flight counter down by one and queues the next tick; every
  other field, the Target buffer among them, is as before. The continuation returns a state:
  nothing is thrown to whoever runs the callback.
\<close>

theorem failed_call_keeps_target:
  "propagateLoop_settled Rejected s =
     s\<lparr>console := console s @ [''GPU propagate loop error''],
       inflight := inflight s - 1,
       rafPending := rafPending s + 1,
       outstanding := outstanding s - 1\<rparr>
   \<and> targetPositions (propagateLoop_settled Rejected s) = targetPositions s
   \<and> inflight (propagateLoop_settled Rejected s) = inflight s - 1
   \<and> rafPending (propagateLoop_settled Rejected s) = rafPending s + 1
   \<and> console (propagateLoop_settled Rejected s) = console s @ [''GPU propagate loop error'']"
  by (simp add: propagateLoop_settled_def write_target_def Let_def)

subsection \<open>Teardown\<close>

lemma tryUnregister_poll:
  "inflight s \<noteq> 0 \<Longrightarrow> tryUnregister ok s = s\<lparr>timersPending := timersPending s + 1\<rparr>"
  by (simp add: tryUnregister_def)

lemma tryUnregister_release:
  "inflight s = 0 \<Longrightarrow>
     backendLog (tryUnregister ok s) = backendLog s @ [unregister_const_set (registeredConstSetId s)]
   \<and> registeredConstSetId (tryUnregister ok s) = None
   \<and> timersPending (tryUnregister ok s) = timersPending s
   \<and> console (tryUnregister ok s) =
        (if ok then console s else console s @ [''unregister_const_set error''])"
  by (simp add: tryUnregister_def Let_def)

lemma tryUnregister_releases:
  "releases (tryUnregister ok s) = (if inflight s = 0 then releases s + 1 else releases s)"
  "timersPending (tryUnregister ok s) = (if inflight s = 0 then timersPending s else timersPending s + 1)"
  by (simp_all add: tryUnregister_def releases_def Let_def)

lemma releases_frame:
  "releases (animate C L s) = releases s"
  "releases (propagateLoop_settled r s) = releases s"
  "releases (s\<lparr>rafPending := n\<rparr>) = releases s"
  "releases (s\<lparr>timersPending := n\<rparr>) = releases s"
  "releases (s\<lparr>clock_currentTime := t\<rparr>) = releases s"
  "releases (s\<lparr>isComponentAlive := b\<rparr>) = releases s"
  by (simp_all add: releases_def animate_frame settled_frame)

lemma one_call_frame:
  "one_call (tryUnregister ok s) = one_call s"
  "one_call (animate C L s) = one_call s"
  "one_call (s\<lparr>rafPending := n\<rparr>) = one_call s"
  "one_call (s\<lparr>timersPending := n\<rparr>) = one_call s"
  "one_call (s\<lparr>clock_currentTime := t\<rparr>) = one_call s"
  "one_call (s\<lparr>isComponentAlive := b\<rparr>) = one_call s"
  by (simp_all add: one_call_def tryUnregister_frame animate_frame)

lemma step_shutting_down:
  assumes "shutting_down s" and "\<not> is_cleanup e" and "step C L e s = Some s'"
  shows "shutting_down s' \<and> propagate_calls (backendLog s') = propagate_calls (backendLog s)"
proof (cases e)
  case Tick
  from assms(1) have "propagateLoop C (s\<lparr>rafPending := rafPending s - 1\<rparr>) = s\<lparr>rafPending := rafPending s - 1\<rparr>"
    by (intro propagateLoop_stop) (simp add: shutting_down_def)
  with assms Tick show ?thesis
    by (auto simp: shutting_down_def one_call_frame releases_frame split: if_splits)
next
  case (Settled r)
  with assms have s': "s' = propagateLoop_settled r s" and pos: "outstanding s > 0"
    by (auto split: if_splits)
  from assms(1) pos have "releases s = 0" by (auto simp: shutting_down_def one_call_def)
  with assms(1) pos show ?thesis unfolding s'
    by (auto simp: shutting_down_def one_call_def releases_frame settled_frame)
next
  case (Cleanup ok)
  with assms show ?thesis by simp
next
  case (Timer ok)
  with assms have s': "s' = tryUnregister ok (s\<lparr>timersPending := timersPending s - 1\<rparr>)"
    and pos: "timersPending s > 0" by (auto split: if_splits)
  with assms(1) show ?thesis unfolding s'
    by (auto simp: shutting_down_def one_call_frame tryUnregister_releases releases_frame
        tryUnregister_frame tryUnregister_propagate_calls)
next
  case Frame
  with assms show ?thesis
    by (auto simp: shutting_down_def one_call_frame releases_frame animate_frame)
next
  case (ClockSet t)
  with assms show ?thesis
    by (auto simp: shutting_down_def one_call_frame releases_frame)
qed

lemma run_shutting_down:
  "shutting_down s \<Longrightarrow> \<forall>e \<in> set es. \<not> is_cleanup e \<Longrightarrow> run C L es s = Some s' \<Longrightarrow>
     shutting_down s' \<and> propagate_calls (backendLog s') = propagate_calls (backendLog s)"
proof (induction es arbitrary: s)
  case Nil
  then show ?case by simp
next
  case (Cons e es)
  from Cons.prems obtain s1 where s1: "step C L e s = Some s1" "run C L es s1 = Some s'"
    by (auto split: option.splits)
  from Cons.prems(2) have ne: "\<not> is_cleanup e" "\<forall>e \<in> set es. \<not> is_cleanup e" by simp_all
  from step_shutting_down[OF Cons.prems(1) ne(1) s1(1)] Cons.IH[OF _ ne(2) s1(2)] show ?case by simp
qed

lemma cleanup_shutting_down:
  assumes "one_call s" "releases s = 0" "timersPending s = 0" "gpuPropagator s"
    "registeredConstSetId s = Some h"
  shows "shutting_down (cleanup ok s)"
  using assms
  by (simp add: cleanup_def shutting_down_def Let_def one_call_frame tryUnregister_releases
      releases_frame tryUnregister_frame)


text \<open>
  After a cleanup, whatever follows (further cleanups included), the component is not alive
  and no propagate call is added; and a release call is only ever made by a callback that
  finds the counter at 0.
\<close>

lemma step_dead:
  assumes "\<not> isComponentAlive s" and "step C L e s = Some s'"
  shows "\<not> isComponentAlive s' \<and> propagate_calls (backendLog s') = propagate_calls (backendLog s)"
proof (cases e)
  case Tick
  from assms(1) have "propagateLoop C (s\<lparr>rafPending := rafPending s - 1\<rparr>) = s\<lparr>rafPending := rafPending s - 1\<rparr>"
    by (intro propagateLoop_stop) simp
  with assms Tick show ?thesis by (auto split: if_splits)
next
  case (Settled r)
  with assms show ?thesis by (auto simp: settled_frame split: if_splits)
next
  case (Cleanup ok)
  with assms show ?thesis by (auto simp: cleanup_frame cleanup_propagate_calls)
next
  case (Timer ok)
  with assms show ?thesis
    by (auto simp: tryUnregister_frame tryUnregister_propagate_calls split: if_splits)
next
  case Frame
  with assms show ?thesis by (auto simp: animate_frame)
next
  case (ClockSet t)
  with assms show ?thesis by auto
qed

lemma run_dead:
  "\<not> isComponentAlive s \<Longrightarrow> run C L es s = Some s' \<Longrightarrow>
     \<not> isComponentAlive s' \<and> propagate_calls (backendLog s') = propagate_calls (backendLog s)"
proof (induction es arbitrary: s)
  case Nil
  then show ?case by simp
next
  case (Cons e es)
  from Cons.prems obtain s1 where s1: "step C L e s = Some s1" "run C L es s1 = Some s'"
    by (auto split: option.splits)
  from step_dead[OF Cons.prems(1) s1(1)] Cons.IH[OF _ s1(2)] show ?case by simp
qed

lemma no_call_after_cleanup:
  assumes "run C L (Cleanup ok # es) s = Some s'"
  shows "\<not> isComponentAlive s' \<and> propagate_calls (backendLog s') = propagate_calls (backendLog s)"
proof -
  from assms have r: "run C L es (cleanup ok s) = Some s'" by simp
  have "\<not> isComponentAlive (cleanup ok s)" by (simp add: cleanup_frame)
  from run_dead[OF this r] show ?thesis by (simp add: cleanup_propagate_calls)
qed

lemma releases_propagateLoop: "releases (propagateLoop C s) = releases s"
  by (rule propagateLoop_cases[of C s]) (simp_all add: releases_def)

lemma release_only_at_zero:
  assumes "step C L e s = Some s'" and "releases s' \<noteq> releases s"
  shows "inflight s = 0"
proof (cases e)
  case Tick
  with assms show ?thesis by (auto simp: releases_propagateLoop releases_frame split: if_splits)
next
  case (Settled r)
  with assms show ?thesis by (auto simp: releases_frame split: if_splits)
next
  case (Cleanup ok)
  with assms show ?thesis
    by (auto simp: cleanup_def Let_def tryUnregister_releases releases_frame split: if_splits)
next
  case (Timer ok)
  with assms show ?thesis
    by (auto simp: tryUnregister_releases releases_frame split: if_splits)
next
  case Frame
  with assms show ?thesis by (auto simp: releases_frame)
next
  case (ClockSet t)
  with assms show ?thesis by (auto simp: releases_frame)
qed

text \<open>
  One cleanup, on a component that holds a handle and has released nothing: whatever
  callbacks follow (no second cleanup among them), no propagate call is added, the release
  call and the pending poll together number exactly one, a release has only happened with
  the counter at 0, and while the counter is non-zero nothing is released and a poll that
  fires only re-arms itself.
\<close>

lemma single_shutdown_releases_once:
  assumes "one_call s" and "releases s = 0" and "timersPending s = 0"
    and "gpuPropagator s" and "registeredConstSetId s = Some h"
    and "\<forall>e \<in> set es. \<not> is_cleanup e"
    and "run C L (Cleanup ok # es) s = Some s'"
  shows "\<not> isComponentAlive s'
       \<and> propagate_calls (backendLog s') = propagate_calls (backendLog s)
       \<and> releases s' + timersPending s' = 1
       \<and> (releases s' = 1 \<longrightarrow> inflight s' = 0)
       \<and> (inflight s' \<noteq> 0 \<longrightarrow> releases s' = 0 \<and> timersPending s' = 1
            \<and> tryUnregister ok' s' = s'\<lparr>timersPending := timersPending s' + 1\<rparr>)"
proof -
  from assms(7) have r: "run C L es (cleanup ok s) = Some s'" by simp
  from run_shutting_down[OF cleanup_shutting_down[OF assms(1-5)] assms(6) r]
  have sd: "shutting_down s'"
    and pc: "propagate_calls (backendLog s') = propagate_calls (backendLog (cleanup ok s))"
    by simp_all
  from sd have "inflight s' \<noteq> 0 \<longrightarrow> releases s' = 0 \<and> timersPending s' = 1"
    by (auto simp: shutting_down_def)
  with sd pc show ?thesis
    by (auto simp: shutting_down_def cleanup_propagate_calls tryUnregister_poll)
qed

text \<open>
  Claim C2, at the tear-down \<open>twice_torn_down\<close>. Each cleanup finds the handle present and the
  counter at 1 and arms a poll of its own; once the call has settled, the first poll
  releases handle 7 and clears it, and the second poll, which does not look at the handle
  again, calls \<open>unregister_const_set\<close> a second time, with the cleared handle. The release
  function is invoked twice, not once.
\<close>

theorem second_cleanup_releases_twice:
  "map_option (\<lambda>s. filter is_unregister (backendLog s)) (run demoC 300 twice_torn_down demo)
     = Some [unregister_const_set (Some 7), unregister_const_set None]
   \<and> map_option releases (run demoC 300 twice_torn_down demo) = Some 2"
  by (simp add: twice_torn_down_def demo_def demoC_def propagateLoop_def times_of_def cleanup_def
      tryUnregister_def propagateLoop_settled_def write_target_def releases_def Let_def)

text \<open>
  Claim C9. A cleanup that finds no handle (or no propagator) only clears the liveness flag:
  no release call, no poll armed. A release call that throws (\<open>ok = False\<close>) leaves one
  console line and the handle cleared, arms no poll (no retry), and returns a state (nothing
  is thrown); a later cleanup then changes nothing.
\<close>

theorem shutdown_without_handle_is_noop:
  "(registeredConstSetId s = None \<or> \<not> gpuPropagator s \<longrightarrow>
      cleanup ok s = s\<lparr>isComponentAlive := False\<rparr>)
   \<and> (gpuPropagator s \<and> registeredConstSetId s = Some h \<and> inflight s = 0 \<longrightarrow>
        cleanup False s =
          s\<lparr>isComponentAlive := False,
            backendLog := backendLog s @ [unregister_const_set (Some h)],
            console := console s @ [''unregister_const_set error''],
            registeredConstSetId := None\<rparr>
      \<and> timersPending (cleanup False s) = timersPending s
      \<and> cleanup ok (cleanup False s) = cleanup False s)
   \<and> (inflight s = 0 \<longrightarrow>
        tryUnregister False s =
          s\<lparr>backendLog := backendLog s @ [unregister_const_set (registeredConstSetId s)],
            console := console s @ [''unregister_const_set error''],
            registeredConstSetId := None\<rparr>)"
  by (auto simp: cleanup_def tryUnregister_def Let_def)

theorem shutdown_without_handle_is_noop_witness:
  "registeredConstSetId demo_unregistered = None
   \<and> cleanup True demo_unregistered = demo_unregistered\<lparr>isComponentAlive := False\<rparr>
   \<and> gpuPropagator demo \<and> registeredConstSetId demo = Some 7 \<and> inflight demo = 0
   \<and> cleanup False demo =
        demo\<lparr>isComponentAlive := False,
          backendLog := backendLog demo @ [unregister_const_set (Some 7)],
          console := console demo @ [''unregister_const_set error''],
          registeredConstSetId := None\<rparr>
   \<and> timersPending (cleanup False demo) = timersPending demo
   \<and> cleanup True (cleanup False demo) = cleanup False demo"
proof -
  have h: "registeredConstSetId demo_unregistered = None" "gpuPropagator demo"
    "registeredConstSetId demo = Some 7" "inflight demo = 0"
    by (simp_all add: demo_unregistered_def demo_def)
  from shutdown_without_handle_is_noop[of demo_unregistered True 7] h(1)
  have a: "cleanup True demo_unregistered = demo_unregistered\<lparr>isComponentAlive := False\<rparr>"
    by blast
  from shutdown_without_handle_is_noop[of demo True 7] h(2-4)
  have b: "cleanup False demo =
        demo\<lparr>isComponentAlive := False,
          backendLog := backendLog demo @ [unregister_const_set (Some 7)],
          console := console demo @ [''unregister_const_set error''],
          registeredConstSetId := None\<rparr>
   \<and> timersPending (cleanup False demo) = timersPending demo
   \<and> cleanup True (cleanup False demo) = cleanup False demo"
    by blast
  from h a b show ?thesis by blast
qed

subsection \<open>A successful backend call\<close>

lemma copy_into_target_six:
  assumes "length flat = 6 * length tgt" and "i \<le> length tgt"
  shows "copy_into_target flat i tgt =
           Inr (take i tgt @ map (sample_m flat) [i..<length tgt])"
  using assms
proof (induction "length tgt - i" arbitrary: i tgt)
  case 0
  then have "i = length tgt" by simp
  with 0 show ?case by (simp add: copy_into_target.simps)
next
  case (Suc n)
  then have lt: "i < length tgt" by simp
  let ?t = "tgt[i := (tgt ! i)\<lparr>px := times1000 (flat_at flat (i * 6)),
                                   py := times1000 (flat_at flat (i * 6 + 1)),
                                   pz := times1000 (flat_at flat (i * 6 + 2))\<rparr>]"
  have upd: "(tgt ! i)\<lparr>px := times1000 (flat_at flat (i * 6)),
                                   py := times1000 (flat_at flat (i * 6 + 1)),
                                   pz := times1000 (flat_at flat (i * 6 + 2))\<rparr> = sample_m flat i"
    using lt Suc.prems(1) by (simp add: sample_m_def flat_at_def mult.commute)
  have cond: "(of_nat i :: rat) < of_nat (length flat) / 6"
    using lt Suc.prems(1) by simp
  have step: "copy_into_target flat i tgt = copy_into_target flat (Suc i) ?t"
    using lt cond by (subst copy_into_target.simps) simp
  have "copy_into_target flat (Suc i) ?t = Inr (take (Suc i) ?t @ map (sample_m flat) [Suc i..<length ?t])"
    using Suc.hyps(2) Suc.prems lt by (intro Suc.hyps(1)) simp_all
  also have "take (Suc i) ?t = take i tgt @ [sample_m flat i]"
    using lt upd by (simp add: take_Suc_conv_app_nth)
  finally show ?case using step lt by (simp add: upt_conv_Cons)
qed

text \<open>
  Claim C6 as stated fails for a result with three components per satellite: the loop takes
  \<open>flat.length / 6\<close> as the number of samples and reads with stride 6, so of the two
  satellites of \<open>flat3\<close> only the first is written, and Target[1] keeps its old value instead
  of the second sample times 1000.
\<close>

theorem three_component_result_misread:
  "length flat3 = 3 * length (targetPositions demo_busy)
   \<and> targetPositions (propagateLoop_settled (Resolved flat3) demo_busy) =
        [\<lparr>px = Num 1000, py = Num 2000, pz = Num 3000\<rparr>, origin]
   \<and> targetPositions (propagateLoop_settled (Resolved flat3) demo_busy) ! 1 \<noteq>
        \<lparr>px = times1000 (flat3 ! 3), py = times1000 (flat3 ! 4), pz = times1000 (flat3 ! 5)\<rparr>"
  by (simp add: flat3_def demo_busy_def demo_def origin_def propagateLoop_settled_def
      write_target_def copy_into_target.simps flat_at_def Let_def)

text \<open>
  Claim C6, amended: when the result holds six components per satellite, one sample per
  entry of Target, a successful call overwrites every entry \<open>i\<close> of Target with the position
  components of the \<open>i\<close>-th sample multiplied by 1000, and logs nothing.
\<close>

theorem six_component_result_fills_target:
  assumes "length flat = 6 * length (targetPositions s)"
  shows "targetPositions (propagateLoop_settled (Resolved flat) s) =
           map (sample_m flat) [0..<length (targetPositions s)]
       \<and> (\<forall>i < length (targetPositions s).
             px (targetPositions (propagateLoop_settled (Resolved flat) s) ! i) = times1000 (flat ! (6 * i))
           \<and> py (targetPositions (propagateLoop_settled (Resolved flat) s) ! i) = times1000 (flat ! (6 * i + 1))
           \<and> pz (targetPositions (propagateLoop_settled (Resolved flat) s) ! i) = times1000 (flat ! (6 * i + 2)))
       \<and> console (propagateLoop_settled (Resolved flat) s) = console s"
proof -
  have c: "copy_into_target flat 0 (targetPositions s) =
             Inr (map (sample_m flat) [0..<length (targetPositions s)])"
    using copy_into_target_six[OF assms, of 0] by simp
  then have t: "targetPositions (propagateLoop_settled (Resolved flat) s) =
           map (sample_m flat) [0..<length (targetPositions s)]"
    by (simp add: propagateLoop_settled_def write_target_def Let_def)
  have k: "console (propagateLoop_settled (Resolved flat) s) = console s"
    using c by (simp add: propagateLoop_settled_def write_target_def Let_def)
  from t have "\<forall>i < length (targetPositions s).
             px (targetPositions (propagateLoop_settled (Resolved flat) s) ! i) = times1000 (flat ! (6 * i))
           \<and> py (targetPositions (propagateLoop_settled (Resolved flat) s) ! i) = times1000 (flat ! (6 * i + 1))
           \<and> pz (targetPositions (propagateLoop_settled (Resolved flat) s) ! i) = times1000 (flat ! (6 * i + 2))"
    by (simp add: sample_m_def)
  with t k show ?thesis by (intro conjI)
qed

theorem six_component_result_fills_target_witness:
  "length flat6 = 6 * length (targetPositions demo_busy)
   \<and> targetPositions (propagateLoop_settled (Resolved flat6) demo_busy) =
        [\<lparr>px = Num 1000, py = Num 2000, pz = Num 3000\<rparr>,
         \<lparr>px = Num 4000, py = Num 5000, pz = Num 6000\<rparr>]
   \<and> console (propagateLoop_settled (Resolved flat6) demo_busy) = console demo_busy"
proof -
  have h: "length flat6 = 6 * length (targetPositions demo_busy)"
    by (simp add: flat6_def demo_busy_def demo_def)
  have l: "length (targetPositions demo_busy) = 2" by (simp add: demo_busy_def demo_def)
  have u: "[0..<2] = [0, Suc 0]" by (simp add: upt_conv_Cons)
  from six_component_result_fills_target[OF h] h show ?thesis
    by (simp add: l u sample_m_def flat6_def)
qed

subsection \<open>The render step\<close>

lemma animate_wrap:
  assumes "pointsMetadata s \<noteq> None" and "pointsCollectionPrimitives s \<noteq> None"
    and "pointsCollection s \<noteq> None"
    and "\<bar>JulianDate_compare C (clock_currentTime s) (clock_stopTime s)\<bar> > L"
  shows "animate C L s = s\<lparr>clock_currentTime := clock_startTime s\<rparr>"
  using assms by (auto simp: animate_def Let_def)

lemma animate_move:
  assumes "pointsMetadata s \<noteq> None" and "pointsCollectionPrimitives s = Some pts"
    and "pointsCollection s \<noteq> None"
    and "\<not> \<bar>JulianDate_compare C (clock_currentTime s) (clock_stopTime s)\<bar> > L"
  shows "animate C L s = move_step pts (transform_step C (clock_currentTime s) s)"
  using assms by (auto simp: animate_def Let_def)

text \<open>
  When the test of the wraparound branch holds, \<open>animate\<close> sets the clock to the start bound
  and changes nothing else: no point, neither buffer, not the transform.
\<close>

lemma wraparound_branch_resets_clock_only:
  assumes "pointsMetadata s \<noteq> None" and "pointsCollectionPrimitives s \<noteq> None"
    and "pointsCollection s \<noteq> None"
    and "\<bar>JulianDate_compare C (clock_currentTime s) (clock_stopTime s)\<bar> > timeLimit C s"
  shows "animate C (timeLimit C s) s = s\<lparr>clock_currentTime := clock_startTime s\<rparr>
       \<and> clock_currentTime (animate C (timeLimit C s) s) = clock_startTime s
       \<and> pointsCollectionPrimitives (animate C (timeLimit C s) s) = pointsCollectionPrimitives s
       \<and> currentPositions (animate C (timeLimit C s) s) = currentPositions s
       \<and> preAllocatedCartesian (animate C (timeLimit C s) s) = preAllocatedCartesian s
       \<and> pointsCollection (animate C (timeLimit C s) s) = pointsCollection s
       \<and> modelMatrix (animate C (timeLimit C s) s) = modelMatrix s
       \<and> lastJDate (animate C (timeLimit C s) s) = lastJDate s
       \<and> transformComputes (animate C (timeLimit C s) s) = transformComputes s"
  by (simp add: animate_wrap[OF assms])

lemma clock_frame:
  "clock_currentTime (update_transform C now s) = clock_currentTime s"
  "clock_currentTime (transform_step C now s) = clock_currentTime s"
  "clock_currentTime (move_step pts s) = clock_currentTime s"
  by (simp_all add: update_transform_def transform_step_def move_step_def Let_def
      split: option.splits prod.splits)

text \<open>
  Claim C7, on the configured window with the library's own \<open>JulianDate.compare\<close>. The span
  is 259200 seconds, but \<open>timeLimit\<close> is 3: the day numbers of the bounds differ, so the
  comparison returns days. At three days and eleven hours past the stop bound the clock is
  298800 seconds away, more than the span, yet the comparison returns 3 days, the test
  \<open>3 > 3\<close> fails and the clock is not reset. At twelve hours before the stop bound
  the day numbers agree, the comparison returns 43200 seconds, the test \<open>43200 > 3\<close> holds
  and the clock is reset to the start although it is inside the window. (The rate limit of
  the transform measures time with \<open>secondsDifference\<close>; this test does not.)
\<close>

theorem wraparound_guard_mixes_days_and_seconds:
  "timeLimit (cesium_time C) (playback april_20_eleven) = 3
   \<and> cesium_secondsDifference april_17 april_14 = 259200
   \<and> cesium_secondsDifference april_20_eleven april_17 = 298800
   \<and> clock_currentTime (animate (cesium_time C) 3 (playback april_20_eleven)) = april_20_eleven
   \<and> april_20_eleven \<noteq> april_14
   \<and> cesium_secondsDifference april_17 april_16_noon = 43200
   \<and> animate (cesium_time C) 3 (playback april_16_noon) =
        (playback april_16_noon)\<lparr>clock_currentTime := april_14\<rparr>"
proof -
  have l: "timeLimit (cesium_time C) (playback april_20_eleven) = 3"
    by (simp add: timeLimit_def cesium_time_def cesium_compare_def playback_def april_17_def april_14_def)
  have d: "cesium_secondsDifference april_17 april_14 = 259200"
    "cesium_secondsDifference april_20_eleven april_17 = 298800"
    "cesium_secondsDifference april_17 april_16_noon = 43200"
    by (simp_all add: cesium_secondsDifference_def april_17_def april_14_def april_20_eleven_def
        april_16_noon_def)
  have ne: "april_20_eleven \<noteq> april_14" by (simp add: april_20_eleven_def april_14_def)
  have late: "\<not> \<bar>JulianDate_compare (cesium_time C) (clock_currentTime (playback april_20_eleven))
                   (clock_stopTime (playback april_20_eleven))\<bar> > 3"
    by (simp add: cesium_time_def cesium_compare_def playback_def april_17_def april_20_eleven_def)
  have i: "pointsMetadata (playback now) \<noteq> None" "pointsCollectionPrimitives (playback now) = Some [origin]"
    "pointsCollection (playback now) \<noteq> None" for now
    by (simp_all add: playback_def)
  have a: "clock_currentTime (animate (cesium_time C) 3 (playback april_20_eleven)) = april_20_eleven"
    by (simp add: animate_move[OF i(1) i(2) i(3) late] clock_frame) (simp add: playback_def)
  have early: "\<bar>JulianDate_compare (cesium_time C) (clock_currentTime (playback april_16_noon))
                   (clock_stopTime (playback april_16_noon))\<bar> > 3"
    by (simp add: cesium_time_def cesium_compare_def playback_def april_17_def april_16_noon_def)
  have i2: "pointsCollectionPrimitives (playback april_16_noon) \<noteq> None" by (simp add: playback_def)
  have b: "animate (cesium_time C) 3 (playback april_16_noon) =
        (playback april_16_noon)\<lparr>clock_currentTime := april_14\<rparr>"
    by (simp add: animate_wrap[OF i(1) i2 i(3) early]) (simp add: playback_def)
  show ?thesis by (intro conjI l d ne a b)
qed

lemma move_step_transform:
  "modelMatrix (move_step pts s) = modelMatrix s"
  "pointsCollection (move_step pts s) = pointsCollection s"
  "lastJDate (move_step pts s) = lastJDate s"
  "transformComputes (move_step pts s) = transformComputes s"
  "pointsCollectionPrimitives (move_step pts s) =
     Some (fst (move_points 0 (targetPositions s) pts (currentPositions s) (preAllocatedCartesian s)))"
  by (simp_all add: move_step_def split: prod.splits)

lemma update_transform_fields:
  "transformComputes (update_transform C now s) = transformComputes s + 1"
  "lastJDate (update_transform C now s) = Some now"
  "currentPositions (update_transform C now s) = currentPositions s"
  "preAllocatedCartesian (update_transform C now s) = preAllocatedCartesian s"
  "nullish (computeTemeToPseudoFixedMatrix C now) (computeIcrfToFixedMatrix C now) = Some r \<Longrightarrow>
     modelMatrix (update_transform C now s) = Some (fromRotationTranslation C r)
   \<and> pointsCollection (update_transform C now s) = Some (Some (fromRotationTranslation C r))"
  "nullish (computeTemeToPseudoFixedMatrix C now) (computeIcrfToFixedMatrix C now) = None \<Longrightarrow>
     modelMatrix (update_transform C now s) = modelMatrix s
   \<and> pointsCollection (update_transform C now s) = pointsCollection s"
  by (simp_all add: update_transform_def Let_def split: option.splits)

lemma transform_step_reuse:
  assumes "\<bar>since_last C s\<bar> \<le> 1"
  shows "transform_step C (clock_currentTime s) s =
           (if lastJDate s = None then s\<lparr>lastJDate := Some (clock_currentTime s)\<rparr> else s)"
  using assms by (cases "lastJDate s") (simp_all add: transform_step_def since_last_def Let_def)

lemma transform_step_recompute:
  assumes "\<bar>since_last C s\<bar> > 1"
  shows "transform_step C (clock_currentTime s) s =
           update_transform C (clock_currentTime s)
             (if lastJDate s = None then s\<lparr>lastJDate := Some (clock_currentTime s)\<rparr> else s)"
  using assms by (cases "lastJDate s") (simp_all add: transform_step_def since_last_def Let_def)

text \<open>
  Claim C8 as stated fails when the clock has gone back: \<open>animate\<close> tests the absolute value
  of the difference, so 50 seconds before the last recompute (the time has not advanced, and
  the signed difference is under 1 second) the transform is recomputed and replaced.
\<close>

theorem backward_jump_recomputes_transform:
  "since_last demoC demo_rewound = - 50
   \<and> \<not> \<bar>JulianDate_compare demoC (clock_currentTime demo_rewound) (clock_stopTime demo_rewound)\<bar> > 300
   \<and> transformComputes demo_rewound = 0
   \<and> transformComputes (animate demoC 300 demo_rewound) = 1
   \<and> modelMatrix demo_rewound = None
   \<and> modelMatrix (animate demoC 300 demo_rewound) = Some 2"
  by (simp add: since_last_def demo_rewound_def demo_def demoC_def animate_def transform_step_def
      update_transform_def nullish_def move_step_def Let_def split: prod.splits)

text \<open>
  Claim C8, amended. On a frame that is not a wraparound, let \<open>d\<close> be the seconds between the
  clock and the instant of the last recompute (of the first frame, before any recompute).
  If \<open>\<bar>d\<bar> \<le> 1\<close> the transform is not computed and the matrix of the collection is the one
  it had. If \<open>\<bar>d\<bar> > 1\<close> the transform is computed exactly once, the instant is recorded, and
  the resulting matrix (when the library yields a rotation) becomes the one \<open>modelMatrix\<close> of
  the collection. In both cases the positions written to the points are those of the loop
  over Target, which no matrix enters.
\<close>

theorem transform_recomputed_beyond_one_second:
  assumes "pointsMetadata s \<noteq> None" and "pointsCollectionPrimitives s = Some pts"
    and "pointsCollection s \<noteq> None"
    and "\<not> \<bar>JulianDate_compare C (clock_currentTime s) (clock_stopTime s)\<bar> > L"
  shows "(\<bar>since_last C s\<bar> \<le> 1 \<longrightarrow>
            transformComputes (animate C L s) = transformComputes s
          \<and> modelMatrix (animate C L s) = modelMatrix s
          \<and> pointsCollection (animate C L s) = pointsCollection s
          \<and> lastJDate (animate C L s) =
               Some (case lastJDate s of None \<Rightarrow> clock_currentTime s | Some l \<Rightarrow> l))
       \<and> (\<bar>since_last C s\<bar> > 1 \<longrightarrow>
            transformComputes (animate C L s) = transformComputes s + 1
          \<and> lastJDate (animate C L s) = Some (clock_currentTime s)
          \<and> (\<forall>r. nullish (computeTemeToPseudoFixedMatrix C (clock_currentTime s))
                       (computeIcrfToFixedMatrix C (clock_currentTime s)) = Some r \<longrightarrow>
                 modelMatrix (animate C L s) = Some (fromRotationTranslation C r)
               \<and> pointsCollection (animate C L s) = Some (Some (fromRotationTranslation C r)))
          \<and> (nullish (computeTemeToPseudoFixedMatrix C (clock_currentTime s))
                       (computeIcrfToFixedMatrix C (clock_currentTime s)) = None \<longrightarrow>
                 modelMatrix (animate C L s) = modelMatrix s
               \<and> pointsCollection (animate C L s) = pointsCollection s))
       \<and> pointsCollectionPrimitives (animate C L s) =
            Some (fst (move_points 0 (targetPositions s) pts (currentPositions s)
                         (preAllocatedCartesian s)))"
proof -
  note am = animate_move[OF assms]
  have a: "\<bar>since_last C s\<bar> \<le> 1 \<longrightarrow>
            transformComputes (animate C L s) = transformComputes s
          \<and> modelMatrix (animate C L s) = modelMatrix s
          \<and> pointsCollection (animate C L s) = pointsCollection s
          \<and> lastJDate (animate C L s) =
               Some (case lastJDate s of None \<Rightarrow> clock_currentTime s | Some l \<Rightarrow> l)"
    by (auto simp: am move_step_transform transform_step_reuse split: option.splits)
  have b: "\<bar>since_last C s\<bar> > 1 \<longrightarrow>
            transformComputes (animate C L s) = transformComputes s + 1
          \<and> lastJDate (animate C L s) = Some (clock_currentTime s)
          \<and> (\<forall>r. nullish (computeTemeToPseudoFixedMatrix C (clock_currentTime s))
                       (computeIcrfToFixedMatrix C (clock_currentTime s)) = Some r \<longrightarrow>
                 modelMatrix (animate C L s) = Some (fromRotationTranslation C r)
               \<and> pointsCollection (animate C L s) = Some (Some (fromRotationTranslation C r)))
          \<and> (nullish (computeTemeToPseudoFixedMatrix C (clock_currentTime s))
                       (computeIcrfToFixedMatrix C (clock_currentTime s)) = None \<longrightarrow>
                 modelMatrix (animate C L s) = modelMatrix s
               \<and> pointsCollection (animate C L s) = pointsCollection s)"
    by (auto simp: am move_step_transform transform_step_recompute update_transform_fields)
  have c: "pointsCollectionPrimitives (animate C L s) =
            Some (fst (move_points 0 (targetPositions s) pts (currentPositions s)
                         (preAllocatedCartesian s)))"
  proof (cases "\<bar>since_last C s\<bar> > 1")
    case True
    then show ?thesis
      by (simp add: am move_step_transform transform_step_recompute update_transform_fields
          update_transform_frame)
  next
    case False
    then show ?thesis
      by (simp add: am move_step_transform transform_step_reuse)
  qed
  from a b c show ?thesis by (intro conjI)
qed

theorem transform_recomputed_beyond_one_second_witness:
  "pointsMetadata demo_later \<noteq> None \<and> pointsCollectionPrimitives demo_later = Some [origin, origin]
   \<and> pointsCollection demo_later \<noteq> None
   \<and> \<not> \<bar>JulianDate_compare demoC (clock_currentTime demo_later) (clock_stopTime demo_later)\<bar> > 300
   \<and> \<bar>since_last demoC demo_later\<bar> > 1
   \<and> transformComputes (animate demoC 300 demo_later) = transformComputes demo_later + 1
   \<and> modelMatrix (animate demoC 300 demo_later) = Some 2
   \<and> pointsCollection (animate demoC 300 demo_later) = Some (Some 2)
   \<and> \<bar>since_last demoC demo\<bar> \<le> 1
   \<and> transformComputes (animate demoC 300 demo) = transformComputes demo
   \<and> modelMatrix (animate demoC 300 demo) = modelMatrix demo"
proof -
  have h: "pointsMetadata demo_later \<noteq> None" "pointsCollectionPrimitives demo_later = Some [origin, origin]"
    "pointsCollection demo_later \<noteq> None"
    "\<not> \<bar>JulianDate_compare demoC (clock_currentTime demo_later) (clock_stopTime demo_later)\<bar> > 300"
    by (simp_all add: demo_later_def demo_def demoC_def)
  have d: "\<bar>since_last demoC demo_later\<bar> > 1"
    by (simp add: since_last_def demo_later_def demo_def demoC_def)
  have n: "nullish (computeTemeToPseudoFixedMatrix demoC (clock_currentTime demo_later))
             (computeIcrfToFixedMatrix demoC (clock_currentTime demo_later)) = Some 1"
    "fromRotationTranslation demoC 1 = 2"
    by (simp_all add: nullish_def demoC_def)
  have h0: "pointsMetadata demo \<noteq> None" "pointsCollectionPrimitives demo = Some [origin, origin]"
    "pointsCollection demo \<noteq> None"
    "\<not> \<bar>JulianDate_compare demoC (clock_currentTime demo) (clock_stopTime demo)\<bar> > 300"
    by (simp_all add: demo_def demoC_def)
  have d0: "\<bar>since_last demoC demo\<bar> \<le> 1"
    by (simp add: since_last_def demo_def demoC_def)
  from transform_recomputed_beyond_one_second[OF h] d n
  have a: "transformComputes (animate demoC 300 demo_later) = transformComputes demo_later + 1
   \<and> modelMatrix (animate demoC 300 demo_later) = Some 2
   \<and> pointsCollection (animate demoC 300 demo_later) = Some (Some 2)"
    by auto
  from transform_recomputed_beyond_one_second[OF h0] d0
  have b: "transformComputes (animate demoC 300 demo) = transformComputes demo
   \<and> modelMatrix (animate demoC 300 demo) = modelMatrix demo"
    by auto
  from h d d0 a b show ?thesis by (intro conjI) simp_all
qed

subsection \<open>Epoch decoding\<close>

lemma round_half_even_err: "\<bar>of_int (round_half_even q) - q\<bar> \<le> 1 / 2"
proof -
  define n where "n = \<lfloor>q\<rfloor>"
  have b: "of_int n \<le> q" "q < of_int n + 1" unfolding n_def by linarith+
  consider "q - of_int n < 1 / 2" | "1 / 2 < q - of_int n" | "q - of_int n = 1 / 2" by linarith
  then show ?thesis
  proof cases
    case 1
    then have "round_half_even q = n" by (simp add: round_half_even_def Let_def n_def)
    with 1 b show ?thesis by simp
  next
    case 2
    then have "round_half_even q = n + 1" by (simp add: round_half_even_def Let_def n_def)
    with 2 b show ?thesis by simp
  next
    case 3
    then have "round_half_even q = n \<or> round_half_even q = n + 1"
      by (simp add: round_half_even_def Let_def n_def)
    with 3 b show ?thesis by auto
  qed
qed

lemma ilog2_bounds:
  assumes "0 < a"
  shows "2 powi ilog2 a \<le> a \<and> a < 2 powi (ilog2 a + 1)"
proof -
  obtain p q where pq: "quotient_of a = (p, q)" by (cases "quotient_of a")
  then have q: "0 < q" and a: "a = of_int p / of_int q"
    using quotient_of_denom_pos quotient_of_div by auto
  with assms have p: "0 < p" by (simp add: zero_less_divide_iff)
  let ?bp = "bitlen p" and ?bq = "bitlen q"
  from bitlen_bounds[OF p] have bp: "2 ^ nat (?bp - 1) \<le> p" "p < 2 ^ nat ?bp" by simp_all
  from bitlen_bounds[OF q] have bq: "2 ^ nat (?bq - 1) \<le> q" "q < 2 ^ nat ?bq" by simp_all
  have bp1: "1 \<le> ?bp" using p by (simp add: bitlen_alt_def)
  have bq1: "1 \<le> ?bq" using q by (simp add: bitlen_alt_def)
  have P: "(2::rat) powi (?bp - 1) \<le> of_int p" "of_int p < (2::rat) powi ?bp"
  proof -
    have "(of_int (2 ^ nat (?bp - 1)) :: rat) \<le> of_int p" using bp(1) by (simp only: of_int_le_iff)
    then show "(2::rat) powi (?bp - 1) \<le> of_int p" using bp1 by (simp add: power_int_def)
    have "(of_int p :: rat) < of_int (2 ^ nat ?bp)" using bp(2) by (simp only: of_int_less_iff)
    then show "of_int p < (2::rat) powi ?bp" using bp1 by (simp add: power_int_def)
  qed
  have Q: "(2::rat) powi (?bq - 1) \<le> of_int q" "of_int q < (2::rat) powi ?bq"
  proof -
    have "(of_int (2 ^ nat (?bq - 1)) :: rat) \<le> of_int q" using bq(1) by (simp only: of_int_le_iff)
    then show "(2::rat) powi (?bq - 1) \<le> of_int q" using bq1 by (simp add: power_int_def)
    have "(of_int q :: rat) < of_int (2 ^ nat ?bq)" using bq(2) by (simp only: of_int_less_iff)
    then show "of_int q < (2::rat) powi ?bq" using bq1 by (simp add: power_int_def)
  qed
  let ?e0 = "?bp - ?bq"
  have qpos: "(0::rat) < of_int q" using q by simp
  have up: "a < 2 powi (?e0 + 1)"
  proof -
    have "a * of_int q = of_int p" using a qpos by simp
    also have "\<dots> < 2 powi ?bp" by (rule P(2))
    also have "\<dots> = 2 powi (?e0 + 1) * 2 powi (?bq - 1)"
      by (simp add: power_int_add[symmetric])
    also have "\<dots> \<le> 2 powi (?e0 + 1) * of_int q"
      by (rule mult_left_mono[OF Q(1)]) simp
    finally show ?thesis using qpos by simp
  qed
  have lo: "2 powi (?e0 - 1) < a"
  proof -
    have "(2::rat) powi (?e0 - 1) * of_int q < 2 powi (?e0 - 1) * 2 powi ?bq"
      by (rule mult_strict_left_mono[OF Q(2)]) simp
    also have "\<dots> = 2 powi (?bp - 1)" by (simp add: power_int_add[symmetric])
    also have "\<dots> \<le> of_int p" by (rule P(1))
    also have "\<dots> = a * of_int q" using a qpos by simp
    finally show ?thesis using qpos by simp
  qed
  show ?thesis
  proof (cases "2 powi ?e0 \<le> a")
    case True
    then have "ilog2 a = ?e0" by (simp add: ilog2_def pq)
    with True up show ?thesis by simp
  next
    case False
    then have "ilog2 a = ?e0 - 1" by (simp add: ilog2_def pq)
    with False lo show ?thesis by simp
  qed
qed

text \<open>Rounding to a double moves a value by at most \<open>2\<^sup>-\<^sup>5\<^sup>3\<close> of its magnitude.\<close>

lemma fl_rel: "\<bar>fl x - x\<bar> \<le> \<bar>x\<bar> / 2 ^ 53"
proof (cases "x = 0")
  case True
  then show ?thesis by (simp add: fl_def)
next
  case False
  define a where "a = \<bar>x\<bar>"
  define e where "e = ilog2 a"
  define q where "q = a * 2 powi (52 - e)"
  define m where "m = round_half_even q"
  have apos: "0 < a" using False by (simp add: a_def)
  from ilog2_bounds[OF apos] have lo: "2 powi e \<le> a" by (simp add: e_def)
  have flx: "fl x = sgn x * of_int m * 2 powi (e - 52)"
    using False by (simp add: fl_def Let_def a_def e_def q_def m_def)
  have inv: "(2::rat) powi (52 - e) * 2 powi (e - 52) = 1"
    by (simp add: power_int_add[symmetric])
  have x: "x = sgn x * q * 2 powi (e - 52)"
  proof -
    have "sgn x * q * 2 powi (e - 52) = sgn x * a * (2 powi (52 - e) * 2 powi (e - 52))"
      by (simp add: q_def mult.assoc)
    also have "\<dots> = sgn x * \<bar>x\<bar>" by (simp add: inv a_def)
    finally show ?thesis by (simp add: sgn_mult_abs)
  qed
  have "fl x - x = sgn x * (of_int m - q) * 2 powi (e - 52)"
    by (subst (2) x) (simp add: flx algebra_simps)
  then have "\<bar>fl x - x\<bar> = \<bar>of_int m - q\<bar> * 2 powi (e - 52)"
    using False by (simp add: abs_mult abs_sgn_eq)
  also have "\<dots> \<le> (1 / 2) * 2 powi (e - 52)"
    unfolding m_def by (intro mult_right_mono round_half_even_err) simp
  also have "\<dots> = 2 powi e / 2 ^ 53"
  proof -
    have "(2::rat) powi (e - 52) = 2 powi e / 2 powi 52"
      by (rule power_int_diff) simp
    also have "(2::rat) powi 52 = 2 ^ 52" by (simp add: power_int_def)
    finally have "(2::rat) powi (e - 52) = 2 powi e / 2 ^ 52" .
    then show ?thesis by simp
  qed
  also have "\<dots> \<le> a / 2 ^ 53" using lo by (simp add: divide_right_mono)
  finally show ?thesis by (simp add: a_def)
qed


lemma fl_step:
  assumes "\<bar>x - X\<bar> \<le> e" and "\<bar>x\<bar> \<le> M"
  shows "\<bar>fl x - X\<bar> \<le> e + M / 2 ^ 53" and "\<bar>fl x\<bar> \<le> M + M / 2 ^ 53"
proof -
  have "\<bar>fl x - x\<bar> \<le> \<bar>x\<bar> / 2 ^ 53" by (rule fl_rel)
  also have "\<dots> \<le> M / 2 ^ 53" using assms(2) by (simp add: divide_right_mono)
  finally have d: "\<bar>fl x - x\<bar> \<le> M / 2 ^ 53" .
  from d assms(1) show "\<bar>fl x - X\<bar> \<le> e + M / 2 ^ 53" by linarith
  from d assms(2) show "\<bar>fl x\<bar> \<le> M + M / 2 ^ 53" by linarith
qed

lemma scale_step:
  fixes x :: rat
  assumes "\<bar>x - X\<bar> \<le> e" and "\<bar>x\<bar> \<le> M" and "0 \<le> k"
  shows "\<bar>x * k - X * k\<bar> \<le> k * e" and "\<bar>x * k\<bar> \<le> k * M"
proof -
  have "\<bar>x * k - X * k\<bar> = \<bar>x - X\<bar> * k"
    using assms(3) by (simp add: left_diff_distrib[symmetric] abs_mult)
  also have "\<dots> \<le> e * k" by (rule mult_right_mono[OF assms(1,3)])
  finally show "\<bar>x * k - X * k\<bar> \<le> k * e" by (simp add: mult.commute)
  have "\<bar>x * k\<bar> = \<bar>x\<bar> * k" using assms(3) by (simp add: abs_mult)
  also have "\<dots> \<le> M * k" by (rule mult_right_mono[OF assms(2,3)])
  finally show "\<bar>x * k\<bar> \<le> k * M" by (simp add: mult.commute)
qed

text \<open>
  The six rounded operations of \<open>epochTimeMs\<close>, started from the rounded day, end within half
  a microsecond of the exact sum.
\<close>

lemma epochTimeMs_close:
  assumes d: "0 \<le> D" "D < 1000" and day: "day = fl D"
    and S: "\<bar>S\<bar> \<le> 3000000000000"
  shows "\<bar>fl (S + fl (fl (fl (fl (fl (day - 1) * 24) * 60) * 60) * 1000))
           - (S + (D - 1) * 86400000)\<bar> \<le> 1 / 2000"
proof -
  define u :: rat where "u = 1 / 2 ^ 53"
  have u: "0 < u" "u * 9007199254740992 = 1" by (simp_all add: u_def)
  have 0: "\<bar>D - D\<bar> \<le> 0" "\<bar>D\<bar> \<le> 1000" using d by simp_all
  have 1: "\<bar>day - D\<bar> \<le> 1000 * u" "\<bar>day\<bar> \<le> 1001"
    using fl_step[OF 0] u unfolding day by (simp_all add: u_def)
  have 2: "\<bar>(day - 1) - (D - 1)\<bar> \<le> 1000 * u" "\<bar>day - 1\<bar> \<le> 1002"
    using 1 by simp_all
  let ?a = "fl (day - 1)"
  have 3: "\<bar>?a - (D - 1)\<bar> \<le> 2002 * u" "\<bar>?a\<bar> \<le> 1003"
    using fl_step[OF 2] by (simp_all add: u_def)
  have 4: "\<bar>?a * 24 - (D - 1) * 24\<bar> \<le> 48048 * u" "\<bar>?a * 24\<bar> \<le> 24072"
    using scale_step[OF 3, of 24] by simp_all
  let ?b = "fl (?a * 24)"
  have 5: "\<bar>?b - (D - 1) * 24\<bar> \<le> 72120 * u" "\<bar>?b\<bar> \<le> 24073"
    using fl_step[OF 4] by (simp_all add: u_def)
  have 6: "\<bar>?b * 60 - (D - 1) * 24 * 60\<bar> \<le> 4327200 * u" "\<bar>?b * 60\<bar> \<le> 1444380"
    using scale_step[OF 5, of 60] by simp_all
  let ?c = "fl (?b * 60)"
  have 7: "\<bar>?c - (D - 1) * 24 * 60\<bar> \<le> 5771580 * u" "\<bar>?c\<bar> \<le> 1444381"
    using fl_step[OF 6] by (simp_all add: u_def)
  have 8: "\<bar>?c * 60 - (D - 1) * 24 * 60 * 60\<bar> \<le> 346294800 * u" "\<bar>?c * 60\<bar> \<le> 86662860"
    using scale_step[OF 7, of 60] by simp_all
  let ?e = "fl (?c * 60)"
  have 9: "\<bar>?e - (D - 1) * 24 * 60 * 60\<bar> \<le> 432957660 * u" "\<bar>?e\<bar> \<le> 86662861"
    using fl_step[OF 8] by (simp_all add: u_def)
  have 10: "\<bar>?e * 1000 - (D - 1) * 24 * 60 * 60 * 1000\<bar> \<le> 432957660000 * u"
    "\<bar>?e * 1000\<bar> \<le> 86662861000"
    using scale_step[OF 9, of 1000] by simp_all
  let ?f = "fl (?e * 1000)"
  have 11: "\<bar>?f - (D - 1) * 24 * 60 * 60 * 1000\<bar> \<le> 519620521000 * u" "\<bar>?f\<bar> \<le> 86662861001"
    using fl_step[OF 10] by (simp_all add: u_def)
  have 12: "\<bar>(S + ?f) - (S + (D - 1) * 24 * 60 * 60 * 1000)\<bar> \<le> 519620521000 * u"
    "\<bar>S + ?f\<bar> \<le> 3086662861001"
    using 11 S by simp_all
  have "\<bar>fl (S + ?f) - (S + (D - 1) * 24 * 60 * 60 * 1000)\<bar> \<le> 3606283382001 * u"
    using fl_step(1)[OF 12] by (simp add: u_def)
  also have "\<dots> \<le> 1 / 2000" by (simp add: u_def)
  finally have "\<bar>fl (S + ?f) - (S + (D - 1) * 24 * 60 * 60 * 1000)\<bar> \<le> 1 / 2000" .
  moreover have "(D - 1) * 24 * 60 * 60 * 1000 = (D - 1) * 86400000" by simp
  ultimately show ?thesis by (simp only:)
qed


lemma is_digit_facts:
  assumes "is_digit c"
  shows "\<not> is_ws c" and "c \<noteq> CHR ''-''" and "c \<noteq> CHR ''+''" and "c \<noteq> CHR ''.''"
    and "0 \<le> digit_val c" and "digit_val c \<le> 9"
  using assms by (auto simp: is_digit_def is_ws_def digit_val_def)

lemma digits_val_snoc: "digits_val (ds @ [c]) = 10 * digits_val ds + digit_val c"
  by (simp add: digits_val_def)

lemma digits_val_bounds:
  "list_all is_digit ds \<Longrightarrow> 0 \<le> digits_val ds \<and> digits_val ds < 10 ^ length ds"
proof (induction ds rule: rev_induct)
  case Nil
  then show ?case by (simp add: digits_val_def)
next
  case (snoc c ds)
  then have "is_digit c" "0 \<le> digits_val ds" "digits_val ds < 10 ^ length ds" by simp_all
  with is_digit_facts(5,6)[of c] show ?case by (simp add: digits_val_snoc)
qed

lemma parseInt_two_digits:
  assumes "is_digit a" and "is_digit b"
  shows "parseInt (take 2 (a # b # rest)) = Some (digits_val [a, b])"
  using assms is_digit_facts[of a]
  by (simp add: parseInt_def Let_def)

lemma parseFloat_decimal:
  assumes "list_all is_digit ip" and "ip \<noteq> []" and "list_all is_digit fp"
  shows "parseFloat (ip @ CHR ''.'' # fp) =
           Some (fl (of_int (digits_val (ip @ fp)) / 10 ^ length fp))"
proof -
  from assms(2) obtain c cs where ip: "ip = c # cs" by (cases ip) auto
  with assms(1) have c: "is_digit c" by simp
  let ?s = "ip @ CHR ''.'' # fp"
  have nd: "\<not> is_digit CHR ''.''" by (simp add: is_digit_def)
  have ws: "dropWhile is_ws ?s = ?s" using is_digit_facts(1)[OF c] by (simp add: ip)
  have ss: "strip_sign ?s = (1, ?s)" using is_digit_facts(2,3)[OF c] by (simp add: ip)
  have tw: "takeWhile is_digit ?s = ip"
    using assms(1) nd by (simp add: takeWhile_append2 list_all_iff)
  have dw: "dropWhile is_digit ?s = CHR ''.'' # fp"
    using assms(1) nd by (simp add: dropWhile_append2 list_all_iff)
  have tf: "takeWhile is_digit fp = fp" "dropWhile is_digit fp = []"
    using assms(3) by (simp_all add: list_all_iff)
  show ?thesis
    unfolding parseFloat_def ws ss prod.case Let_def tw dw
    using assms(2) by (simp add: tf)
qed


lemma Date_UTC_jan1_bound:
  assumes "1957 \<le> year" and "year \<le> 2056"
  shows "\<bar>Date_UTC year 0 1\<bar> \<le> 3000000000000"
proof -
  define y1 where "y1 = year - 1"
  define era where "era = y1 div 400"
  define yoe where "yoe = y1 - era * 400"
  have e: "4 \<le> era" "era \<le> 5" using assms by (simp_all add: era_def y1_def)
  have y: "0 \<le> yoe" "yoe < 400" "0 \<le> yoe div 4" "yoe div 4 \<le> 100" "0 \<le> yoe div 100"
    "yoe div 100 \<le> 4"
    unfolding yoe_def era_def by (simp_all add: minus_div_mult_eq_mod[symmetric])
  have "Date_UTC year 0 1 =
          (era * 146097 + (yoe * 365 + yoe div 4 - yoe div 100 + 306) - 719468) * 86400000"
    using assms by (simp add: Date_UTC_def days_from_civil_def Let_def y1_def era_def yoe_def)
  moreover have "yoe = year - 1 - era * 400" by (simp add: yoe_def y1_def)
  ultimately have "Date_UTC year 0 1 =
      (365 * (year - 1) + 97 * era + yoe div 4 - yoe div 100 + 306 - 719468) * 86400000"
    by simp
  with e y assms show ?thesis by (simp add: abs_le_iff)
qed

lemma new_Date_close:
  assumes "\<bar>t\<bar> \<le> 8640000000000000"
  shows "\<exists>ms. new_Date t = Some ms \<and> \<bar>of_int ms - t\<bar> < 1"
proof (cases "0 \<le> t")
  case True
  with assms have "new_Date t = Some \<lfloor>t\<rfloor>" by (simp add: new_Date_def)
  moreover have "\<bar>of_int \<lfloor>t\<rfloor> - t\<bar> < 1" by linarith
  ultimately show ?thesis by blast
next
  case False
  with assms have "new_Date t = Some \<lceil>t\<rceil>" by (simp add: new_Date_def)
  moreover have "\<bar>of_int \<lceil>t\<rceil> - t\<bar> < 1" by linarith
  ultimately show ?thesis by blast
qed

text \<open>
  An epoch string of two year digits, up to three day digits, a point and fraction digits
  decodes to a valid \<open>Date\<close> whose time value is less than 1.0005 ms from the exact instant.
\<close>

lemma epoch_decoding_close:
  assumes "is_digit y1" and "is_digit y2"
    and "list_all is_digit ip" and "ip \<noteq> []" and "length ip \<le> 3"
    and "list_all is_digit fp"
  shows "\<exists>ms. tleEpochToMs (y1 # y2 # ip @ CHR ''.'' # fp) = Some ms
           \<and> \<bar>rat_of_int ms
                - (of_int (Date_UTC (if digits_val [y1, y2] < 57 then 2000 + digits_val [y1, y2]
                                     else 1900 + digits_val [y1, y2]) 0 1)
                   + (of_int (digits_val (ip @ fp)) / 10 ^ length fp - 1) * 86400000)\<bar>
               < 1 + 1 / 2000"
proof -
  define YY where "YY = digits_val [y1, y2]"
  define D :: rat where "D = of_int (digits_val (ip @ fp)) / 10 ^ length fp"
  define year where "year = pivot_year YY"
  define S :: rat where "S = of_int (Date_UTC year 0 1)"
  have yy: "0 \<le> YY" "YY < 100"
    using digits_val_bounds[of "[y1, y2]"] assms(1,2) by (simp_all add: YY_def)
  then have yr: "1957 \<le> year" "year \<le> 2056" by (simp_all add: year_def pivot_year_def)
  have S: "\<bar>S\<bar> \<le> 3000000000000"
    using Date_UTC_jan1_bound[OF yr] unfolding S_def
    by (metis of_int_abs of_int_le_iff of_int_numeral)
  have db: "0 \<le> digits_val (ip @ fp)" "digits_val (ip @ fp) < 10 ^ (length ip + length fp)"
    using digits_val_bounds[of "ip @ fp"] assms(3,6) by simp_all
  have D0: "0 \<le> D" using db(1) by (simp add: D_def)
  have "(of_int (digits_val (ip @ fp)) :: rat) < of_int (10 ^ (length ip + length fp))"
    using db(2) by (simp only: of_int_less_iff)
  also have "\<dots> = 10 ^ length ip * 10 ^ length fp" by (simp add: power_add)
  also have "\<dots> \<le> 10 ^ 3 * 10 ^ length fp"
  proof (rule mult_right_mono)
    show "(10::rat) ^ length ip \<le> 10 ^ 3" by (rule power_increasing[OF assms(5)]) simp
  qed simp
  finally have D1: "D < 1000" by (simp add: D_def divide_less_eq)
  have pi: "parseInt (take 2 (y1 # y2 # ip @ CHR ''.'' # fp)) = Some YY"
    unfolding YY_def by (rule parseInt_two_digits[OF assms(1,2)])
  have pf: "parseFloat (drop 2 (y1 # y2 # ip @ CHR ''.'' # fp)) = Some (fl D)"
    using parseFloat_decimal[OF assms(3,4,6)] by (simp add: D_def)
  have dec: "tleEpochToMs (y1 # y2 # ip @ CHR ''.'' # fp) = new_Date (epochTimeMs year (fl D))"
    unfolding tleEpochToMs_def pi pf by (simp add: year_def)
  let ?t = "epochTimeMs year (fl D)"
  have close: "\<bar>?t - (S + (D - 1) * 86400000)\<bar> \<le> 1 / 2000"
    unfolding epochTimeMs_def S_def[symmetric] by (rule epochTimeMs_close[OF D0 D1 refl S])
  have "\<bar>S + (D - 1) * 86400000\<bar> \<le> 3000000000000 + 1000 * 86400000"
    using S D0 D1 by (simp add: abs_le_iff) 
  with close have "\<bar>?t\<bar> \<le> 8640000000000000" by linarith
  from new_Date_close[OF this] obtain ms where ms: "new_Date ?t = Some ms" "\<bar>of_int ms - ?t\<bar> < 1"
    by blast
  from ms(2) close have "\<bar>of_int ms - (S + (D - 1) * 86400000)\<bar> < 1 + 1 / 2000" by linarith
  moreover from ms(1) dec have "tleEpochToMs (y1 # y2 # ip @ CHR ''.'' # fp) = Some ms" by simp
  ultimately show ?thesis
    unfolding S_def D_def year_def pivot_year_def YY_def by blast
qed

lemma test_vector: "tleEpochToMs ''24091.50000000'' = Some 1711886400000"
  by code_simp

lemma truncated_vector: "tleEpochToMs ''24091.00000001'' = Some 1711843200000"
  by code_simp

lemma march_31_noon: "Date_UTC 2024 2 31 + 12 * 3600000 = 1711886400000"
  by (simp add: Date_UTC_def days_from_civil_def)

text \<open>
  Claim C3 as stated fails where the fraction of the day is no whole number of
  milliseconds: \<open>24091.00000001\<close> is 0.864 ms past midnight of day 91, and the decoded
  \<open>Date\<close> is midnight itself, the fraction of the millisecond being cut off.
\<close>

theorem epoch_fraction_truncated:
  "tleEpochToMs ''24091.00000001'' = Some 1711843200000
   \<and> pivot_year 24 = 2024
   \<and> rat_of_int 1711843200000 \<noteq>
        of_int (Date_UTC (pivot_year 24) 0 1) + (9100000001 / 10 ^ 8 - 1) * 86400000"
proof -
  have "rat_of_int 1711843200000 \<noteq>
        of_int (Date_UTC (pivot_year 24) 0 1) + (9100000001 / 10 ^ 8 - 1) * 86400000"
    by (simp add: Date_UTC_def days_from_civil_def pivot_year_def)
  moreover have "pivot_year 24 = 2024" by (simp add: pivot_year_def)
  ultimately show ?thesis using truncated_vector by (intro conjI)
qed

text \<open>
  Claim C3, amended. For an epoch string made of a two-digit year \<open>yy\<close> and a fractional
  day of year (up to three digits, a point, any digits), the year is \<open>2000 + yy\<close> when
  \<open>yy < 57\<close> and \<open>1900 + yy\<close> otherwise, and the decoded instant is a valid \<open>Date\<close> less
  than 1.0005 ms away from \<open>(day - 1)\<close> days past January 1st of that year, 00:00 UTC (the
  \<open>Date\<close> holds whole milliseconds and the sum is computed in doubles). The input
  \<open>24091.50000000\<close> decodes exactly to 2024-03-31T12:00:00.000Z.
\<close>

theorem epoch_decoding_within_a_millisecond:
  assumes "is_digit y1" and "is_digit y2"
    and "list_all is_digit ip" and "ip \<noteq> []" and "length ip \<le> 3"
    and "list_all is_digit fp"
  shows "(\<exists>ms. tleEpochToMs (y1 # y2 # ip @ CHR ''.'' # fp) = Some ms
           \<and> \<bar>rat_of_int ms
                - (of_int (Date_UTC (if digits_val [y1, y2] < 57 then 2000 + digits_val [y1, y2]
                                     else 1900 + digits_val [y1, y2]) 0 1)
                   + (of_int (digits_val (ip @ fp)) / 10 ^ length fp - 1) * 86400000)\<bar>
               < 1 + 1 / 2000)
       \<and> tleEpochToMs ''24091.50000000'' = Some (Date_UTC 2024 2 31 + 12 * 3600000)"
  using epoch_decoding_close[OF assms] test_vector march_31_noon by (intro conjI) simp_all

theorem epoch_decoding_within_a_millisecond_witness:
  "is_digit CHR ''2'' \<and> is_digit CHR ''4'' \<and> list_all is_digit ''091'' \<and> ''091'' \<noteq> []
   \<and> length ''091'' \<le> 3 \<and> list_all is_digit ''50000000''
   \<and> CHR ''2'' # CHR ''4'' # ''091'' @ CHR ''.'' # ''50000000'' = ''24091.50000000''
   \<and> digits_val [CHR ''2'', CHR ''4''] = 24 \<and> digits_val (''091'' @ ''50000000'') = 9150000000
   \<and> (\<exists>ms. tleEpochToMs (CHR ''2'' # CHR ''4'' # ''091'' @ CHR ''.'' # ''50000000'') = Some ms
           \<and> \<bar>rat_of_int ms
                - (of_int (Date_UTC (if digits_val [CHR ''2'', CHR ''4''] < 57
                                     then 2000 + digits_val [CHR ''2'', CHR ''4'']
                                     else 1900 + digits_val [CHR ''2'', CHR ''4'']) 0 1)
                   + (of_int (digits_val (''091'' @ ''50000000'')) / 10 ^ length ''50000000'' - 1)
                     * 86400000)\<bar>
               < 1 + 1 / 2000)
   \<and> tleEpochToMs ''24091.50000000'' = Some (Date_UTC 2024 2 31 + 12 * 3600000)"
proof -
  have h: "is_digit CHR ''2''" "is_digit CHR ''4''" "list_all is_digit ''091''" "''091'' \<noteq> []"
    "length ''091'' \<le> 3" "list_all is_digit ''50000000''"
    by (simp_all add: is_digit_def)
  have v: "digits_val [CHR ''2'', CHR ''4''] = 24" "digits_val (''091'' @ ''50000000'') = 9150000000"
    by (simp_all add: digits_val_def digit_val_def)
  have e: "CHR ''2'' # CHR ''4'' # ''091'' @ CHR ''.'' # ''50000000'' = ''24091.50000000''" by simp
  note t = epoch_decoding_within_a_millisecond[OF h]
  show ?thesis by (intro conjI h v e t[THEN conjunct1] t[THEN conjunct2])
qed

subsection \<open>Registration\<close>









end
